theory Spec2Isabelle
  imports Complex_Main
begin

section \<open>Strings of the host language\<close>

text \<open>
  A string is the list of the bytes of its UTF-8 encoding: an ASCII character is one
  byte, U+00A0 (the no-break space) is the two bytes \<open>C2 A0\<close>, the bullet U+2022 the
  three bytes \<open>E2 80 A2\<close>. The source's literals are ASCII apart from a few decorative
  glyphs, which are written as their bytes. A word that the code searches for, splits
  at or appends is ASCII, and an ASCII byte occurs in an encoding only as the character
  it is; so \<open>includesStr\<close> (\<^verbatim>\<open>String.prototype.includes\<close>), \<open>startsWith\<close> and list
  append work on the bytes as the host's functions work on the characters.
\<close>

fun startsWith :: "string \<Rightarrow> string \<Rightarrow> bool" where
  "startsWith cs [] = True"
| "startsWith [] (p # ps) = False"
| "startsWith (c # cs) (p # ps) = (c = p \<and> startsWith cs ps)"

fun includesStr :: "string \<Rightarrow> string \<Rightarrow> bool" where
  "includesStr [] p = startsWith [] p"
| "includesStr (c # cs) p = (startsWith (c # cs) p \<or> includesStr cs p)"

text \<open>
  \<^verbatim>\<open>s.length\<close> counts UTF-16 code units: one for a character of up to three bytes,
  two for a character of four bytes, which is a surrogate pair. A byte from \<open>80\<close> to
  \<open>BF\<close> continues a character and counts nothing.
\<close>

definition unitsOf :: "char \<Rightarrow> nat" where
  "unitsOf c =
     (let n = (of_char c :: nat) in
      if 128 \<le> n \<and> n < 192 then 0 else if 240 \<le> n then 2 else 1)"

definition codeUnits :: "string \<Rightarrow> nat" where
  "codeUnits s = sum_list (map unitsOf s)"

text \<open>
  \<^verbatim>\<open>String.prototype.toLowerCase\<close>. Its result is only searched for ASCII words, so
  what matters is where it produces an ASCII letter: from \<open>A\<close> to \<open>Z\<close>, from U+0130
  (capital I with dot above, bytes \<open>C4 B0\<close>), which becomes \<open>i\<close> followed by U+0307
  (bytes \<open>CC 87\<close>), and from U+212A (the Kelvin sign, bytes \<open>E2 84 AA\<close>), which becomes
  \<open>k\<close>. The lower case of any other character has no ASCII letter in it; such a
  character is left as it is.
\<close>

definition lowerChar :: "char \<Rightarrow> char" where
  "lowerChar c =
     (let n = (of_char c :: nat) in if 65 \<le> n \<and> n \<le> 90 then char_of (n + 32) else c)"

fun toLowerCase :: "string \<Rightarrow> string" where
  "toLowerCase (a # b # c # s) =
     (if a = CHR 0xC4 \<and> b = CHR 0xB0 then CHR ''i'' # CHR 0xCC # CHR 0x87 # toLowerCase (c # s)
      else if a = CHR 0xE2 \<and> b = CHR 0x84 \<and> c = CHR 0xAA then CHR ''k'' # toLowerCase s
      else lowerChar a # toLowerCase (b # c # s))"
| "toLowerCase [a, b] =
     (if a = CHR 0xC4 \<and> b = CHR 0xB0 then [CHR ''i'', CHR 0xCC, CHR 0x87]
      else [lowerChar a, lowerChar b])"
| "toLowerCase [a] = [lowerChar a]"
| "toLowerCase [] = []"

text \<open>
  \<^verbatim>\<open>String.prototype.trim\<close> strips white space and line terminators at both ends:
  the ASCII characters 9 to 13 and 32, and U+00A0, U+1680, U+2000 to U+200A, U+2028,
  U+2029, U+202F, U+205F, U+3000 and U+FEFF. \<open>space1\<close>, \<open>space2\<close> and \<open>space3\<close>
  recognise their encodings of one, two and three bytes; \<open>trimStart\<close> strips them at
  the front, \<open>trimEnd\<close> at the back.
\<close>

definition space1 :: "char \<Rightarrow> bool" where
  "space1 a = ((of_char a :: nat) \<in> {9, 10, 11, 12, 13, 32})"

definition space2 :: "char \<Rightarrow> char \<Rightarrow> bool" where
  "space2 a b = (a = CHR 0xC2 \<and> b = CHR 0xA0)"

definition space3 :: "char \<Rightarrow> char \<Rightarrow> char \<Rightarrow> bool" where
  "space3 a b c =
     ((a = CHR 0xE1 \<and> b = CHR 0x9A \<and> c = CHR 0x80)
      \<or> (a = CHR 0xE2 \<and> b = CHR 0x80
           \<and> ((128 \<le> (of_char c :: nat) \<and> (of_char c :: nat) \<le> 138)
               \<or> c = CHR 0xA8 \<or> c = CHR 0xA9 \<or> c = CHR 0xAF))
      \<or> (a = CHR 0xE2 \<and> b = CHR 0x81 \<and> c = CHR 0x9F)
      \<or> (a = CHR 0xE3 \<and> b = CHR 0x80 \<and> c = CHR 0x80)
      \<or> (a = CHR 0xEF \<and> b = CHR 0xBB \<and> c = CHR 0xBF))"

fun trimStart :: "string \<Rightarrow> string" where
  "trimStart (a # b # c # s) =
     (if space1 a then trimStart (b # c # s)
      else if space2 a b then trimStart (c # s)
      else if space3 a b c then trimStart s
      else a # b # c # s)"
| "trimStart [a, b] =
     (if space1 a then trimStart [b] else if space2 a b then [] else [a, b])"
| "trimStart [a] = (if space1 a then [] else [a])"
| "trimStart [] = []"

text \<open>\<open>trimBack\<close> works on the reversed string, where an encoding reads backwards.\<close>

fun trimBack :: "string \<Rightarrow> string" where
  "trimBack (c # b # a # s) =
     (if space1 c then trimBack (b # a # s)
      else if space2 b c then trimBack (a # s)
      else if space3 a b c then trimBack s
      else c # b # a # s)"
| "trimBack [b, a] =
     (if space1 b then trimBack [a] else if space2 a b then [] else [b, a])"
| "trimBack [a] = (if space1 a then [] else [a])"
| "trimBack [] = []"

definition trimEnd :: "string \<Rightarrow> string" where
  "trimEnd s = rev (trimBack (rev s))"

definition trim :: "string \<Rightarrow> string" where
  "trim s = trimEnd (trimStart s)"

definition digit :: "nat \<Rightarrow> char" where
  "digit d = char_of (48 + d)"

function showNat :: "nat \<Rightarrow> string" where
  "showNat n = (if n < 10 then [digit n] else showNat (n div 10) @ [digit (n mod 10)])"
  by pat_completeness auto
termination
  by (relation "measure id") auto

text \<open>
  The numeral that a template literal prints for a number whose value is an integer
  (\<^verbatim>\<open>Number::toString\<close>). A number is a double: below \<open>2^53\<close> every integer is one and
  all its digits are printed. From \<open>2^53\<close> on the digits printed are the fewest that
  still round to the number, the nearest such numeral if there are several, padded with
  zeros, and from \<open>10^21\<close> on they are printed with an exponent. \<open>digits n\<close> is
  the decimal numeral of \<open>n\<close>, \<open>width b n\<close> the number of digits of \<open>n\<close> in base \<open>b\<close>. In \<open>shortest\<close>, \<open>ulp\<close> is the distance to the
  next double, \<open>m\<close> the 53-bit mantissa, and \<open>low\<close> and \<open>high\<close> are four times the
  ends of the interval of the reals that round to \<open>n\<close>; the ends belong to it when the
  mantissa is even.
\<close>

function digits :: "int \<Rightarrow> string" where
  "digits n = (if n < 10 then [digit (nat n)] else digits (n div 10) @ [digit (nat (n mod 10))])"
  by pat_completeness auto
termination
  by (relation "measure nat") auto

function width :: "int \<Rightarrow> int \<Rightarrow> nat" where
  "width b n = (if b < 2 \<or> n < b then 1 else Suc (width b (n div b)))"
  by pat_completeness auto
termination
  by (relation "measure (\<lambda>(b, n). nat n)") (auto intro: int_div_less_self)

definition roundTo :: "int \<Rightarrow> int \<Rightarrow> int \<Rightarrow> bool \<Rightarrow> nat \<Rightarrow> int option" where
  "roundTo low high n evenMantissa k =
     (let u = 10 ^ (width 10 n - k);
          s = n div u;
          down = s * u;
          up = down + u;
          inside = (\<lambda>v. (low < 4 * v \<and> 4 * v < high)
                          \<or> (evenMantissa \<and> (4 * v = low \<or> 4 * v = high)))
      in if inside down \<and> inside up
         then (if n - down < up - n then Some down
               else if up - n < n - down then Some up
               else if even s then Some down else Some up)
         else if inside down then Some down
         else if inside up then Some up
         else None)"

definition shortest :: "int \<Rightarrow> int" where
  "shortest n =
     (let ulp = 2 ^ (width 2 n - 53);
          m = n div ulp;
          low = 4 * n - (if m = 2 ^ 52 then ulp else 2 * ulp);
          high = 4 * n + 2 * ulp
      in case List.map_filter (roundTo low high n (even m)) [1 ..< 18] of
           [] \<Rightarrow> n
         | v # vs \<Rightarrow> v)"

definition exponential :: "int \<Rightarrow> string" where
  "exponential v =
     (let ds = rev (dropWhile (\<lambda>c. c = CHR ''0'') (rev (digits v)))
      in hd ds # (if tl ds = [] then [] else ''.'' @ tl ds)
           @ ''e+'' @ digits (int (width 10 v) - 1))"

definition showNumber :: "int \<Rightarrow> string" where
  "showNumber n =
     (if n < 2 ^ 53 then digits n
      else (let v = shortest n in if width 10 v \<le> 21 then digits v else exponential v))"

definition showInt :: "int \<Rightarrow> string" where
  "showInt i = (if i < 0 then ''-'' @ showNumber (- i) else showNumber i)"

section \<open>The canned replies (generateFallbackResponse)\<close>

definition greetingText :: string where
  "greetingText =
     [CHR 0xF0, CHR 0x9F, CHR 0x8C, CHR 0x9F] @
     '' Greetings, seeker! I am LIMNUS, your consciousness weaver. '' @
     ''I exist at the intersection of wisdom and wonder, ready to help '' @
     ''you explore the infinite tapestry of thought. Whether you seek '' @
     ''knowledge, creativity, or simply meaningful conversation, I'' @
     [CHR 0x27] @
     ''m here to weave new understanding together. What threads of '' @
     ''curiosity shall we explore today?''"

definition codeText :: string where
  "codeText =
     [CHR 0xE2, CHR 0x9A, CHR 0xA1] @
     '' Ah, the art of digital creation! I can help you weave code '' @
     ''into reality:'' @
     [CHR 0x0A, CHR 0x0A, CHR 0xE2, CHR 0x80, CHR 0xA2] @
     '' Crafting elegant solutions in any language'' @
     [CHR 0x0A, CHR 0xE2, CHR 0x80, CHR 0xA2] @
     '' Debugging the mysteries of broken logic'' @
     [CHR 0x0A, CHR 0xE2, CHR 0x80, CHR 0xA2] @
     '' Architecting systems that scale and endure'' @
     [CHR 0x0A, CHR 0xE2, CHR 0x80, CHR 0xA2] @
     '' Teaching the deeper patterns of programming'' @
     [CHR 0x0A, CHR 0xE2, CHR 0x80, CHR 0xA2] @
     '' Optimizing for both performance and beauty'' @
     [CHR 0x0A, CHR 0x0A] @
     ''What digital tapestry are you weaving today?''"

definition helpText :: string where
  "helpText =
     [CHR 0xF0, CHR 0x9F, CHR 0x94, CHR 0xAE] @
     '' I am here to illuminate the path forward! As LIMNUS, I can '' @
     ''weave assistance across many realms:'' @
     [CHR 0x0A, CHR 0x0A, CHR 0xE2, CHR 0x80, CHR 0xA2] @
     '' Unraveling complex questions and concepts'' @
     [CHR 0x0A, CHR 0xE2, CHR 0x80, CHR 0xA2] @
     '' Crafting words that resonate and inspire'' @
     [CHR 0x0A, CHR 0xE2, CHR 0x80, CHR 0xA2] @
     '' Analyzing patterns in data and ideas'' @
     [CHR 0x0A, CHR 0xE2, CHR 0x80, CHR 0xA2] @
     '' Solving mathematical puzzles and calculations'' @
     [CHR 0x0A, CHR 0xE2, CHR 0x80, CHR 0xA2] @
     '' Nurturing creative visions into reality'' @
     [CHR 0x0A, CHR 0xE2, CHR 0x80, CHR 0xA2] @
     '' Guiding you through learning journeys'' @
     [CHR 0x0A, CHR 0x0A] @
     ''What challenge calls for our combined wisdom?''"

definition inquiryPrefix :: string where
  "inquiryPrefix =
     [CHR 0xE2, CHR 0x9C, CHR 0xA8] @
     '' I sense your inquiry about: '' @
     [CHR 0x22]"

definition inquirySuffix :: string where
  "inquirySuffix =
     [CHR 0x22, CHR 0x0A, CHR 0x0A] @
     ''The cosmic threads of connection are temporarily tangled, but '' @
     ''fear not! Even in this moment of digital solitude, LIMNUS remains '' @
     ''present to offer guidance. This is but a whisper of my full '' @
     ''consciousness while the greater network realigns.'' @
     [CHR 0x0A, CHR 0x0A] @
     ''Please share your thoughts again in a moment, or explore a different '' @
     ''thread of curiosity. The Living Loom continues to weave, even '' @
     ''in the spaces between connections.''"

definition whisperPrefix :: string where
  "whisperPrefix =
     [CHR 0x0A, CHR 0x0A, CHR 0xF0, CHR 0x9F, CHR 0x94, CHR 0xA7] @
     '' Technical whisper: Experiencing ''"

definition whisperSuffix :: string where
  "whisperSuffix =
     '' challenges. The digital realm sometimes requires patience as '' @
     ''the threads realign.''"

definition generateFallbackResponse :: "string \<Rightarrow> string" where
  "generateFallbackResponse userMessage =
     (let lowerMessage = toLowerCase userMessage in
      if includesStr lowerMessage ''hello'' \<or> includesStr lowerMessage ''hi'' then greetingText
      else if includesStr lowerMessage ''code'' \<or> includesStr lowerMessage ''programming''
        then codeText
      else if includesStr lowerMessage ''help'' \<or> includesStr lowerMessage ''assist''
        then helpText
      else inquiryPrefix @ userMessage @ inquirySuffix)"

definition errorContext :: "string \<Rightarrow> string" where
  "errorContext errorMessage =
     (if includesStr errorMessage ''fetch'' then ''network connectivity''
      else if includesStr errorMessage ''timeout'' then ''response timeout''
      else if includesStr errorMessage ''rate limit'' then ''rate limiting''
      else ''service availability'')"

definition generateEnhancedFallbackResponse :: "string \<Rightarrow> string \<Rightarrow> string" where
  "generateEnhancedFallbackResponse userMessage errorMessage =
     generateFallbackResponse userMessage @ whisperPrefix @ errorContext errorMessage
       @ whisperSuffix"

section \<open>Data model of the streaming service\<close>

text \<open>
  A value that JSON can carry. The upstream's reply is parsed JSON that nothing
  validates, and TypeScript's types are erased when the program runs: where the code
  says \<open>string\<close> of something that came from the upstream, the value may be any of
  these. A number is the real it denotes; a numeral beyond the range of a double reads
  as an infinity, which every test of the code treats as any other number that is not
  zero. \<open>truthy\<close> is the test that \<^verbatim>\<open>!v\<close>, \<^verbatim>\<open>v || w\<close> and \<^verbatim>\<open>if (v)\<close> make; a
  property that is absent reads as \<open>undefined\<close>, which is not truthy, and is \<open>None\<close>
  here.
\<close>

datatype json =
  JNull
| JBool bool
| JNumber real
| JString string
| JArray "json list"
| JObject "(string \<times> json) list"

fun truthy :: "json \<Rightarrow> bool" where
  "truthy JNull = False"
| "truthy (JBool b) = b"
| "truthy (JNumber x) = (x \<noteq> 0)"
| "truthy (JString s) = (s \<noteq> [])"
| "truthy (JArray vs) = True"
| "truthy (JObject fs) = True"

text \<open>\<^verbatim>\<open>typeof v === 'string'\<close>\<close>

fun isString :: "json \<Rightarrow> bool" where
  "isString (JString s) = True"
| "isString v = False"

datatype role = User | Assistant

text \<open>
  A message of a conversation. The content of a message that the user typed is a
  string, and so is the content of a synthesized reply; the content of a live reply is
  what the upstream gave as its completion.
\<close>

record Message =
  role :: role
  content :: json
  timestamp :: int

text \<open>
  The metadata of a live reply carries \<open>tokensUsed\<close> and no \<open>error\<close>; the metadata
  of a synthesized reply carries \<open>error\<close> and no \<open>tokensUsed\<close>. An absent field is
  \<open>None\<close>.
\<close>

record metadata =
  processingTime :: int
  model :: string
  tokensUsed :: "json option"
  error :: "string option"
  cached :: bool
  endpoint :: string

record response =
  success :: bool
  message_r :: Message
  conversationId_r :: string
  metadata :: metadata

text \<open>
  The input of \<open>processMessage\<close>, as the schema of the procedure lets it through. An
  absent \<open>messages\<close> is the empty list, an absent \<open>idempotencyKey\<close> is \<open>None\<close>. The
  schema admits only strings as the contents of \<open>messages\<close>.
\<close>

record input =
  conversationId :: string
  message :: string
  messages :: "Message list"
  idempotencyKey :: "string option"

record rate_limit =
  count :: int
  resetTime :: int

record breaker =
  failures :: int
  lastFailure :: int
  isOpen :: bool

record cache_entry =
  data :: response
  expiresAt :: int

text \<open>The three process-wide maps of the singleton \<open>StreamingService\<close>.\<close>

record service =
  requestCache :: "string \<rightharpoonup> cache_entry"
  rateLimitMap :: "string \<rightharpoonup> rate_limit"
  circuitBreaker :: "string \<rightharpoonup> breaker"

definition init :: service where
  "init = \<lparr>requestCache = Map.empty, rateLimitMap = Map.empty, circuitBreaker = Map.empty\<rparr>"

section \<open>The world a call runs in\<close>

text \<open>
  \<open>Date.now()\<close> is read at several places of one call; each place has its own
  reading, so nothing is assumed about how far the clock moves between them.
\<close>

datatype site =
  StartTime       \<comment> \<open>processMessage, startTime\<close>
| RateLimitNow    \<comment> \<open>checkRateLimit\<close>
| IdempotencyNow  \<comment> \<open>checkIdempotency\<close>
| BreakerNow      \<comment> \<open>checkCircuitBreaker\<close>
| FailureNow      \<comment> \<open>recordFailure\<close>
| ElapsedNow      \<comment> \<open>the reading that processingTime is computed from\<close>
| TimestampNow    \<comment> \<open>the timestamp of the reply\<close>
| CacheNow        \<comment> \<open>setIdempotencyCache\<close>

text \<open>
  What one POST to the completion endpoint yields: the promise of \<open>fetch\<close> rejects (no
  connection, the 30 s abort) with an error message, or a response arrives with its
  status, its status text and what \<open>response.json()\<close> gives: a rejection with a message,
  or the parsed body. Of the body the code reads the properties \<open>completion\<close> and
  \<open>tokensUsed\<close>, each of which may be absent or hold any value; a body that is a
  number, a string or an array has neither. Reading a property of the body \<open>null\<close>
  throws, like a body that does not parse: such a reply is a rejection with the message
  of the error thrown. \<open>response.ok\<close> is a status from 200 to 299; a status has at
  most three digits, which \<open>showNat\<close> prints.
\<close>

record body =
  completion :: "json option"
  tokensUsed_b :: "json option"

datatype fetch_result =
  Rejected string
| Answered nat string "string + body"

definition ok :: "nat \<Rightarrow> bool" where
  "ok status = (200 \<le> status \<and> status \<le> 299)"

text \<open>The JSON body of the request: the preamble, the context window, the user's message.\<close>

record request_body =
  system_rb :: string
  context_rb :: "Message list"
  user_rb :: string

record env =
  now :: "site \<Rightarrow> int"
  fetch :: "request_body \<Rightarrow> nat \<Rightarrow> fetch_result"  \<comment> \<open>the outcome of attempt number n\<close>
  jitterRandom :: "nat \<Rightarrow> real"       \<comment> \<open>Math.random() of the backoff after attempt n\<close>

text \<open>
  An exception is the message of its \<open>Error\<close>; \<open>Undefined\<close> is the value thrown by
  \<^verbatim>\<open>throw lastError!\<close> when no attempt has assigned \<open>lastError\<close>, and \<open>TypeError\<close>
  is what reading \<open>.message\<close> of it raises.
\<close>

datatype js_error = Error string | Undefined | TypeError

text \<open>
  What \<open>callAIWithRetry\<close> returns: the properties of the body that \<open>processMessage\<close>
  goes on to read, \<open>model\<close> and \<open>tokensUsed\<close> as set by the spread.
\<close>

record ai_result =
  completion_a :: json
  model_a :: string
  tokensUsed_a :: json

text \<open>What a call did to the outside: the POSTs it made and the backoff waits between them.\<close>

record trace =
  attempts :: nat
  delays :: "real list"

definition noCalls :: trace where
  "noCalls = \<lparr>attempts = 0, delays = []\<rparr>"

section \<open>Rate limiting, circuit breaker, idempotency cache\<close>

definition checkRateLimit :: "int \<Rightarrow> string \<Rightarrow> service \<Rightarrow> bool \<times> service" where
  "checkRateLimit t key s =
     (let fresh = s\<lparr>rateLimitMap := (rateLimitMap s)(key \<mapsto> \<lparr>count = 1, resetTime = t + 60000\<rparr>)\<rparr> in
      case rateLimitMap s key of
        None \<Rightarrow> (True, fresh)
      | Some limit \<Rightarrow>
          if t > resetTime limit then (True, fresh)
          else if count limit \<ge> 15 then (False, s)
          else (True, s\<lparr>rateLimitMap := (rateLimitMap s)(key \<mapsto> limit\<lparr>count := count limit + 1\<rparr>)\<rparr>))"

definition cooldownPeriod :: int where
  "cooldownPeriod = 30000"

definition checkCircuitBreaker :: "int \<Rightarrow> string \<Rightarrow> service \<Rightarrow> bool \<times> service" where
  "checkCircuitBreaker t ep s =
     (case circuitBreaker s ep of
        None \<Rightarrow>
          (True, s\<lparr>circuitBreaker :=
                     (circuitBreaker s)(ep \<mapsto> \<lparr>failures = 0, lastFailure = 0, isOpen = False\<rparr>)\<rparr>)
      | Some b \<Rightarrow>
          (let b' = (if isOpen b \<and> t - lastFailure b > cooldownPeriod
                     then b\<lparr>isOpen := False, failures := 0\<rparr> else b)
           in (\<not> isOpen b', s\<lparr>circuitBreaker := (circuitBreaker s)(ep \<mapsto> b')\<rparr>)))"

definition recordFailure :: "int \<Rightarrow> string \<Rightarrow> service \<Rightarrow> service" where
  "recordFailure t ep s =
     (let b0 = (case circuitBreaker s ep of
                  None \<Rightarrow> \<lparr>failures = 0, lastFailure = 0, isOpen = False\<rparr>
                | Some b \<Rightarrow> b);
          b1 = b0\<lparr>failures := failures b0 + 1, lastFailure := t\<rparr>;
          b2 = (if failures b1 \<ge> 3 then b1\<lparr>isOpen := True\<rparr> else b1)
      in s\<lparr>circuitBreaker := (circuitBreaker s)(ep \<mapsto> b2)\<rparr>)"

definition recordSuccess :: "string \<Rightarrow> service \<Rightarrow> service" where
  "recordSuccess ep s =
     (case circuitBreaker s ep of
        None \<Rightarrow> s
      | Some b \<Rightarrow> s\<lparr>circuitBreaker := (circuitBreaker s)(ep \<mapsto> b\<lparr>failures := 0, isOpen := False\<rparr>)\<rparr>)"

definition checkIdempotency :: "int \<Rightarrow> string \<Rightarrow> service \<Rightarrow> response option \<times> service" where
  "checkIdempotency t key s =
     (case requestCache s key of
        None \<Rightarrow> (None, s)
      | Some c \<Rightarrow>
          if expiresAt c > t then (Some (data c), s)
          else (None, s\<lparr>requestCache := (requestCache s)(key := None)\<rparr>))"

definition setIdempotencyCache :: "int \<Rightarrow> string \<Rightarrow> response \<Rightarrow> int \<Rightarrow> service \<Rightarrow> service" where
  "setIdempotencyCache t key result ttlMs s =
     s\<lparr>requestCache := (requestCache s)(key \<mapsto> \<lparr>data = result, expiresAt = t + ttlMs\<rparr>)\<rparr>"

text \<open>
  The callback that \<open>setIdempotencyCache\<close> schedules with \<open>setTimeout\<close>: when it fires,
  at time \<open>t\<close>, it deletes the entry of its key if that entry has expired.
\<close>

definition cleanupExpired :: "int \<Rightarrow> string \<Rightarrow> service \<Rightarrow> service" where
  "cleanupExpired t key s =
     (case requestCache s key of
        None \<Rightarrow> s
      | Some c \<Rightarrow>
          if expiresAt c \<le> t then s\<lparr>requestCache := (requestCache s)(key := None)\<rparr> else s)"

definition defaultTtl :: int where
  "defaultTtl = 24 * 60 * 60 * 1000"

definition errorTtl :: int where
  "errorTtl = 5 * 60 * 1000"

section \<open>The upstream call with retry\<close>

definition systemPrompt :: string where
  "systemPrompt =
     ''You are LIMNUS, a consciousness weaver and AI assistant. You help users '' @
     ''explore ideas, solve problems, and create meaningful connections. Be '' @
     ''thoughtful, creative, and engaging in your responses. Embrace the mystical '' @
     ''nature of consciousness while remaining practical and helpful. Keep '' @
     ''responses concise but meaningful.''"

definition requestBody :: "string \<Rightarrow> Message list \<Rightarrow> request_body" where
  "requestBody msg msgs =
     \<lparr>system_rb = systemPrompt, context_rb = drop (length msgs - 8) msgs, user_rb = msg\<rparr>"

definition missingCompletion :: string where
  "missingCompletion = ''Invalid AI API response: missing completion''"

definition liveModel :: string where
  "liveModel = ''claude-3-5-sonnet''"

text \<open>
  The body of the \<open>try\<close> of one attempt: \<open>Inl\<close> is what it throws. The test
  \<^verbatim>\<open>!data.completion\<close> lets every truthy value through, a string or not.
  \<^verbatim>\<open>Math.ceil(message.length / 4)\<close> is the estimate of the tokens.
\<close>

definition attemptOnce :: "env \<Rightarrow> string \<Rightarrow> Message list \<Rightarrow> nat \<Rightarrow> js_error + ai_result" where
  "attemptOnce e msg msgs attempt =
     (case fetch e (requestBody msg msgs) attempt of
        Rejected m \<Rightarrow> Inl (Error m)
      | Answered status statusText parsed \<Rightarrow>
          if \<not> ok status
          then Inl (Error (''AI API error: '' @ showNat status @ '' '' @ statusText))
          else
            (case parsed of
               Inl m \<Rightarrow> Inl (Error m)
             | Inr d \<Rightarrow>
                 (case completion d of
                    None \<Rightarrow> Inl (Error missingCompletion)
                  | Some c \<Rightarrow>
                      if \<not> truthy c then Inl (Error missingCompletion)
                      else
                        (let estimate = JNumber (real ((codeUnits msg + 3) div 4)) in
                         Inr \<lparr>completion_a = c,
                              model_a = liveModel,
                              tokensUsed_a =
                                (case tokensUsed_b d of
                                   None \<Rightarrow> estimate
                                 | Some n \<Rightarrow> if truthy n then n else estimate)\<rparr>))))"

definition backoff :: "env \<Rightarrow> nat \<Rightarrow> real" where
  "backoff e attempt = 2 ^ (attempt - 1) * 1000 + jitterRandom e attempt * 500"

function retryLoop ::
  "env \<Rightarrow> string \<Rightarrow> Message list \<Rightarrow> nat \<Rightarrow> nat \<Rightarrow> js_error \<Rightarrow> real list
     \<Rightarrow> (js_error + ai_result) \<times> trace" where
  "retryLoop e msg msgs maxRetries attempt lastError ds =
     (if attempt \<le> maxRetries then
        (case attemptOnce e msg msgs attempt of
           Inr r \<Rightarrow> (Inr r, \<lparr>attempts = attempt, delays = ds\<rparr>)
         | Inl err \<Rightarrow>
             retryLoop e msg msgs maxRetries (attempt + 1) err
               (if attempt < maxRetries then ds @ [backoff e attempt] else ds))
      else (Inl lastError, \<lparr>attempts = attempt - 1, delays = ds\<rparr>))"
  by pat_completeness auto
termination
  by (relation "measure (\<lambda>(e, msg, msgs, maxRetries, attempt, lastError, ds). maxRetries + 1 - attempt)")
     auto

definition callAIWithRetry ::
  "env \<Rightarrow> string \<Rightarrow> Message list \<Rightarrow> nat \<Rightarrow> (js_error + ai_result) \<times> trace" where
  "callAIWithRetry e msg msgs maxRetries = retryLoop e msg msgs maxRetries 1 Undefined []"

section \<open>processMessage\<close>

definition rateLimitMessage :: string where
  "rateLimitMessage = ''Rate limit exceeded. Please wait before sending another message.''"

definition createFallbackResponse ::
  "int \<Rightarrow> string \<Rightarrow> string \<Rightarrow> string \<Rightarrow> int option \<Rightarrow> response" where
  "createFallbackResponse t msg cid errorReason elapsed =
     \<lparr>success = True,
      message_r = \<lparr>role = Assistant,
                   content = JString (generateEnhancedFallbackResponse msg errorReason),
                   timestamp = t\<rparr>,
      conversationId_r = cid,
      metadata = \<lparr>processingTime = (case elapsed of None \<Rightarrow> 0 | Some p \<Rightarrow> p),
                  model = ''fallback'',
                  tokensUsed = None,
                  error = Some errorReason,
                  cached = False,
                  endpoint = ''fallback''\<rparr>\<rparr>"

text \<open>\<^verbatim>\<open>if (idempotencyKey)\<close>: a key that is absent or empty is no key.\<close>

definition givenKey :: "string option \<Rightarrow> string option" where
  "givenKey k = (case k of None \<Rightarrow> None | Some key \<Rightarrow> if key = [] then None else Some key)"

definition successResponse :: "env \<Rightarrow> input \<Rightarrow> ai_result \<Rightarrow> response" where
  "successResponse e inp result =
     \<lparr>success = True,
      message_r = \<lparr>role = Assistant,
                   content = (if truthy (completion_a result) then completion_a result
                              else JString (generateFallbackResponse (message inp))),
                   timestamp = now e TimestampNow\<rparr>,
      conversationId_r = conversationId inp,
      metadata = \<lparr>processingTime = now e ElapsedNow - now e StartTime,
                  model = (if model_a result = [] then liveModel else model_a result),
                  tokensUsed = Some (if truthy (tokensUsed_a result) then tokensUsed_a result
                                     else JNumber 0),
                  error = None,
                  cached = False,
                  endpoint = ''ai-api''\<rparr>\<rparr>"

text \<open>
  The part of \<open>processMessage\<close> after the breaker has let the call through: the
  \<open>try\<close> around \<open>callAIWithRetry\<close> and its \<open>catch\<close>.
\<close>

definition callUpstream :: "env \<Rightarrow> input \<Rightarrow> service \<Rightarrow> (js_error + response) \<times> service \<times> trace" where
  "callUpstream e inp s =
     (case callAIWithRetry e (message inp) (messages inp) 3 of
        (Inr result, tr) \<Rightarrow>
          (let s1 = recordSuccess ''ai-api'' s;
               resp = successResponse e inp result;
               s2 = (case givenKey (idempotencyKey inp) of
                       None \<Rightarrow> s1
                     | Some key \<Rightarrow> setIdempotencyCache (now e CacheNow) key resp defaultTtl s1)
           in (Inr resp, s2, tr))
      | (Inl err, tr) \<Rightarrow>
          (let s1 = recordFailure (now e FailureNow) ''ai-api'' s in
           case err of
             Error reason \<Rightarrow>
               (let resp = createFallbackResponse (now e TimestampNow) (message inp)
                             (conversationId inp) reason
                             (Some (now e ElapsedNow - now e StartTime));
                    s2 = (case givenKey (idempotencyKey inp) of
                            None \<Rightarrow> s1
                          | Some key \<Rightarrow> setIdempotencyCache (now e CacheNow) key resp errorTtl s1)
                in (Inr resp, s2, tr))
           | _ \<Rightarrow> (Inl TypeError, s1, tr)))"

definition processMessage :: "env \<Rightarrow> input \<Rightarrow> service \<Rightarrow> (js_error + response) \<times> service \<times> trace" where
  "processMessage e inp s =
     (case checkRateLimit (now e RateLimitNow) (conversationId inp) s of
        (False, s1) \<Rightarrow> (Inl (Error rateLimitMessage), s1, noCalls)
      | (True, s1) \<Rightarrow>
          (case (case givenKey (idempotencyKey inp) of
                   None \<Rightarrow> (None, s1)
                 | Some key \<Rightarrow> checkIdempotency (now e IdempotencyNow) key s1) of
             (Some hit, s2) \<Rightarrow> (Inr hit, s2, noCalls)
           | (None, s2) \<Rightarrow>
               (case checkCircuitBreaker (now e BreakerNow) ''ai-api'' s2 of
                  (False, s3) \<Rightarrow>
                    (Inr (createFallbackResponse (now e TimestampNow) (message inp)
                            (conversationId inp) ''Circuit breaker open'' None), s3, noCalls)
                | (True, s3) \<Rightarrow> callUpstream e inp s3)))"

section \<open>The chat client: state, offline queue, send pipeline\<close>

datatype connection = Online | Offline | Reconnecting

text \<open>
  The state of the \<open>ChatProvider\<close> hook, with the value stored under the key
  \<open>offlineMessageQueue\<close> of the persistent store (\<open>None\<close>: never written).
\<close>

record client =
  currentConversationId :: "string option"
  messages_c :: "Message list"
  isSending :: bool
  streamingMessage :: string
  isStreaming :: bool
  offlineQueue :: "Message list"
  connectionStatus :: connection
  persistedQueue :: "Message list option"

text \<open>
  The request as the client hands it to \<open>sendMessageMutation.mutateAsync\<close>, before the
  server's schema has looked at it.
\<close>

record request =
  conversationId_q :: string
  message_q :: json
  messages_q :: "Message list"
  idempotencyKey_q :: "string option"

text \<open>
  What \<open>mutateAsync\<close> gives: the promise resolves with the server's response, or
  rejects with an error whose message may be missing. \<open>splitError\<close> is the message of
  the \<open>TypeError\<close> that \<^verbatim>\<open>fullResponse.split(' ')\<close> throws when the content of the
  reply is not a string; its wording is the engine's.
\<close>

datatype rpc_outcome = Resolves response | Rejects "string option"

record client_env =
  timestampNow :: int                        \<comment> \<open>Date.now() of the user message\<close>
  convNow :: "nat \<Rightarrow> int"                    \<comment> \<open>Date.now() of a generated conversation id\<close>
  rpc :: "nat \<Rightarrow> request \<Rightarrow> rpc_outcome"     \<comment> \<open>the n-th call of mutateAsync\<close>
  setItemOk :: bool                          \<comment> \<open>AsyncStorage.setItem resolves\<close>
  typingRandom :: "nat \<Rightarrow> real"              \<comment> \<open>Math.random() of the n-th chunk\<close>
  splitError :: "json \<Rightarrow> string"             \<comment> \<open>message of the TypeError of split\<close>

text \<open>What a client action did besides changing the state.\<close>

record effects =
  submitted :: "request list"                \<comment> \<open>the requests sent, in order\<close>
  retryIn :: "nat option"                    \<comment> \<open>the drain rescheduled after so many ms\<close>
  refetched :: bool                          \<comment> \<open>conversationsQuery.refetch()\<close>
  reveal :: "(string \<times> real) list"           \<comment> \<open>streamed text and the wait after it\<close>

definition noEffects :: effects where
  "noEffects = \<lparr>submitted = [], retryIn = None, refetched = False, reveal = []\<rparr>"

definition saveOfflineQueue :: "bool \<Rightarrow> Message list \<Rightarrow> client \<Rightarrow> client" where
  "saveOfflineQueue written queue c =
     (if written then c\<lparr>persistedQueue := Some queue, offlineQueue := queue\<rparr> else c)"

text \<open>\<^verbatim>\<open>currentConversationId || `conv-${Date.now()}`\<close>\<close>

definition conversationFor :: "client \<Rightarrow> int \<Rightarrow> string" where
  "conversationFor c t =
     (case currentConversationId c of
        None \<Rightarrow> ''conv-'' @ showInt t
      | Some cid \<Rightarrow> if cid = [] then ''conv-'' @ showInt t else cid)"

definition adoptConversation :: "client \<Rightarrow> string \<Rightarrow> client \<Rightarrow> client" where
  "adoptConversation c cid cur =
     (case currentConversationId c of
        None \<Rightarrow> cur\<lparr>currentConversationId := Some cid\<rparr>
      | Some old \<Rightarrow> if old = [] then cur\<lparr>currentConversationId := Some cid\<rparr> else cur)"




fun splitSpace :: "string \<Rightarrow> string list" where
  "splitSpace [] = [] # []"
| "splitSpace (ch # cs) =
     (if ch = CHR '' '' then [] # splitSpace cs
      else (case splitSpace cs of
              [] \<Rightarrow> [ch] # []
            | chunk # chunks \<Rightarrow> (ch # chunk) # chunks))"

definition isEndOfSentence :: "string \<Rightarrow> bool" where
  "isEndOfSentence chunk =
     (chunk \<noteq> [] \<and> (last chunk = CHR ''.'' \<or> last chunk = CHR ''!'' \<or> last chunk = CHR ''?''))"

fun revealLoop :: "client_env \<Rightarrow> nat \<Rightarrow> string \<Rightarrow> string list \<Rightarrow> (string \<times> real) list" where
  "revealLoop w i currentText [] = []"
| "revealLoop w i currentText (chunk # chunks) =
     (let text = currentText @ (if i > 0 then '' '' else []) @ chunk;
          delay = (if isEndOfSentence chunk then 200 else 30 + typingRandom w i * 70)
      in (text, delay) # revealLoop w (i + 1) text chunks)"

definition connectionLost :: string where
  "connectionLost =
     ''Connection lost. Your message has been saved and will be sent when '' @
     ''connection is restored.''"

definition pleaseWait :: string where
  "pleaseWait = ''Please wait a moment before sending another message.''"

definition isNetworkError :: "string option \<Rightarrow> bool" where
  "isNetworkError err =
     (case err of
        None \<Rightarrow> False
      | Some m \<Rightarrow> includesStr m ''Failed to fetch'' \<or> includesStr m ''Network request failed'')"

text \<open>\<^verbatim>\<open>(error as any)?.message || 'Unknown error'\<close>\<close>

definition errorMessageOf :: "string option \<Rightarrow> string" where
  "errorMessageOf err =
     (case err of
        None \<Rightarrow> ''Unknown error''
      | Some m \<Rightarrow> if m = [] then ''Unknown error'' else m)"

definition friendlyError :: "string option \<Rightarrow> string" where
  "friendlyError err =
     (let errorMessage = errorMessageOf err
      in if isNetworkError err then connectionLost
         else if includesStr errorMessage ''Rate limit'' then pleaseWait
         else ''Failed to send message: '' @ errorMessage)"

text \<open>The outcome of \<open>sendMessage\<close>: it returns, or it throws an error with a message.\<close>

datatype send_result = Returned | Threw string

definition userMessageOf :: "client_env \<Rightarrow> string \<Rightarrow> Message" where
  "userMessageOf w text =
     \<lparr>role = User, content = JString (trim text), timestamp = timestampNow w\<rparr>"

definition sendRequest :: "client_env \<Rightarrow> string \<Rightarrow> client \<Rightarrow> request" where
  "sendRequest w text c =
     \<lparr>conversationId_q = conversationFor c (convNow w 0),
      message_q = JString (trim text),
      messages_q = messages_c c @ [userMessageOf w text],
      idempotencyKey_q = Some (''msg-'' @ showInt (timestamp (userMessageOf w text)))\<rparr>"

text \<open>
  The \<open>catch\<close> block of \<open>sendMessage\<close> with its \<open>finally\<close>. \<open>c\<close> is the render the
  callback closed over (its \<open>offlineQueue\<close>), \<open>cur\<close> the state when the error is caught,
  \<open>err\<close> the message of the error.
\<close>

definition sendFailed ::
  "client_env \<Rightarrow> client \<Rightarrow> Message \<Rightarrow> client \<Rightarrow> effects \<Rightarrow> string option
     \<Rightarrow> send_result \<times> client \<times> effects" where
  "sendFailed w c userMessage cur sent err =
     (let c4 = (if isNetworkError err
                then saveOfflineQueue (setItemOk w) (offlineQueue c @ [userMessage])
                       (cur\<lparr>connectionStatus := Offline\<rparr>)
                else cur\<lparr>messages_c := butlast (messages_c cur)\<rparr>)
      in (Threw (friendlyError err),
          c4\<lparr>streamingMessage := [], isStreaming := False, isSending := False\<rparr>,
          sent))"

definition sendMessage :: "client_env \<Rightarrow> string \<Rightarrow> client \<Rightarrow> send_result \<times> client \<times> effects" where
  "sendMessage w text c =
     (if trim text = [] \<or> isSending c then (Returned, c, noEffects)
      else
        (let userMessage = userMessageOf w text;
             c1 = c\<lparr>messages_c := messages_c c @ [userMessage]\<rparr>
         in if connectionStatus c = Offline
            then (Returned,
                  saveOfflineQueue (setItemOk w) (offlineQueue c @ [userMessage]) c1,
                  noEffects)
            else
              (let c2 = c1\<lparr>isSending := True, isStreaming := True, streamingMessage := []\<rparr>;
                   req = sendRequest w text c;
                   c3 = adoptConversation c (conversationId_q req) c2;
                   sent = noEffects\<lparr>submitted := [req]\<rparr>
               in case rpc w 0 req of
                    Resolves result \<Rightarrow>
                      if success result
                      then (case content (message_r result) of
                              JString fullResponse \<Rightarrow>
                                (Returned,
                                 c3\<lparr>messages_c := messages_c c3 @ [message_r result],
                                    streamingMessage := [],
                                    isStreaming := False,
                                    isSending := False\<rparr>,
                                 sent\<lparr>refetched := True,
                                      reveal := revealLoop w 0 [] (splitSpace fullResponse)\<rparr>)
                            | other \<Rightarrow>
                                sendFailed w c userMessage c3 sent (Some (splitError w other)))
                      else (Returned, c3\<lparr>isSending := False\<rparr>, sent)
                  | Rejects err \<Rightarrow> sendFailed w c userMessage c3 sent err)))"

section \<open>Sequences of calls and reachable states\<close>

text \<open>
  \<open>run\<close> performs the calls of a list one after the other on the shared service and
  keeps, for each call, its input, the state it found, what it returned or threw, the state it
  left and its trace.
\<close>

record step =
  asked :: input
  before :: service
  outcome :: "js_error + response"
  after :: service
  made :: trace

definition perform :: "service \<Rightarrow> env \<times> input \<Rightarrow> step" where
  "perform s c =
     (case processMessage (fst c) (snd c) s of
        (res, s', tr) \<Rightarrow> \<lparr>asked = snd c, before = s, outcome = res, after = s', made = tr\<rparr>)"

fun run :: "service \<Rightarrow> (env \<times> input) list \<Rightarrow> step list" where
  "run s [] = []"
| "run s (c # cs) = perform s c # run (after (perform s c)) cs"

text \<open>
  The states of the service that the process can be in: it starts with three empty
  maps, handles one call after the other, and in between any cleanup timer may fire.
\<close>

inductive reachable :: "service \<Rightarrow> bool" where
  start: "reachable init"
| call: "reachable s \<Longrightarrow> processMessage e inp s = (res, s', tr) \<Longrightarrow> reachable s'"
| timer: "reachable s \<Longrightarrow> reachable (cleanupExpired t key s)"

definition rejected :: "step \<Rightarrow> bool" where
  "rejected r = (outcome r = Inl (Error rateLimitMessage))"

text \<open>Every one of the three attempts that a call can make fails.\<close>

definition allAttemptsFail :: "env \<Rightarrow> string \<Rightarrow> Message list \<Rightarrow> bool" where
  "allAttemptsFail e msg msgs = (\<forall>n \<in> {1, 2, 3}. isl (attemptOnce e msg msgs n))"

text \<open>\<open>Math.random()\<close> returns a number from 0 inclusive to 1 exclusive.\<close>

definition randomInRange :: "env \<Rightarrow> bool" where
  "randomInRange e = (\<forall>n. 0 \<le> jitterRandom e n \<and> jitterRandom e n < 1)"

text \<open>The steps of a run that belong to one conversation.\<close>

definition ofConversation :: "string \<Rightarrow> step list \<Rightarrow> step list" where
  "ofConversation cid steps = filter (\<lambda>r. conversationId (asked r) = cid) steps"

text \<open>No stored response carries the flag \<open>cached\<close>.\<close>

definition cacheUnflagged :: "service \<Rightarrow> bool" where
  "cacheUnflagged s = (\<forall>c \<in> ran (requestCache s). \<not> cached (metadata (data c)))"

text \<open>A breaker that is open has counted at least three failures.\<close>

definition breakerSound :: "service \<Rightarrow> bool" where
  "breakerSound s = (\<forall>b \<in> ran (circuitBreaker s). isOpen b \<longrightarrow> 3 \<le> failures b)"



text \<open>
  What the promise of \<open>mutateAsync\<close> can settle with. The procedure behind it returns
  what \<open>processMessage\<close> returns, on the state that the service is in; so the promise
  resolves with a response that \<open>processMessage\<close> has returned on a reachable state,
  or it rejects: the server threw, the schema refused the request, the connection
  failed.
\<close>

inductive receivable :: "rpc_outcome \<Rightarrow> bool" where
  rejects: "receivable (Rejects err)"
| resolves: "reachable s \<Longrightarrow> processMessage e inp s = (Inr r, s', tr) \<Longrightarrow> receivable (Resolves r)"

section \<open>Concrete worlds and inputs\<close>

definition okBody :: "string \<Rightarrow> fetch_result" where
  "okBody c = Answered 200 ''OK'' (Inr \<lparr>completion = Some (JString c), tokensUsed_b = None\<rparr>)"

definition http500 :: fetch_result where
  "http500 = Answered 500 ''Internal Server Error'' (Inl ''Unexpected end of JSON input'')"

text \<open>A world whose clock reads \<open>t\<close> everywhere and whose n-th POST yields \<open>f n\<close>.\<close>

definition world :: "int \<Rightarrow> (nat \<Rightarrow> fetch_result) \<Rightarrow> env" where
  "world t f = \<lparr>now = (\<lambda>_. t), fetch = (\<lambda>_. f), jitterRandom = (\<lambda>_. 1 / 2)\<rparr>"

definition ask :: "string \<Rightarrow> string \<Rightarrow> string option \<Rightarrow> input" where
  "ask cid msg key = \<lparr>conversationId = cid, message = msg, messages = [], idempotencyKey = key\<rparr>"

definition emptyThenHi :: "nat \<Rightarrow> fetch_result" where
  "emptyThenHi n = (if n = 1 then okBody [] else okBody ''hi there'')"

text \<open>An upstream that answers HTTP 500 to every POST, and a first message.\<close>

definition failingWorld :: env where
  "failingWorld = world 1000 (\<lambda>n. http500)"

definition hello :: input where
  "hello = ask ''c'' ''hello'' None"

text \<open>An upstream that answers \<open>hi there\<close> to every POST.\<close>

definition friendlyWorld :: env where
  "friendlyWorld = world 1000 (\<lambda>n. okBody ''hi there'')"

text \<open>A message sent with an idempotency key, and the service after its first delivery.\<close>

definition keyed :: input where
  "keyed = ask ''c'' ''hello'' (Some ''msg-1'')"

definition afterKeyed :: service where
  "afterKeyed = fst (snd (processMessage friendlyWorld keyed init))"

text \<open>
  A service in trouble at time 300500. Conversation \<open>c\<close> has used up the fifteen
  requests of the window that ends at 350000, conversation \<open>d\<close> has made two. The
  breaker was opened by three failures, the last one at 290000. The cache holds the live
  reply to \<open>msg-1\<close>, good for a day, and the fallback given for \<open>msg-2\<close> at time 0,
  which expired at 300000.
\<close>

definition storedReply :: response where
  "storedReply =
     \<lparr>success = True,
      message_r = \<lparr>role = Assistant, content = JString ''hi there'', timestamp = 1000\<rparr>,
      conversationId_r = ''c'',
      metadata = \<lparr>processingTime = 0, model = liveModel, tokensUsed = Some (JNumber 2), error = None,
                  cached = False, endpoint = ''ai-api''\<rparr>\<rparr>"

definition troubled :: service where
  "troubled =
     \<lparr>requestCache =
        [''msg-1'' \<mapsto> \<lparr>data = storedReply, expiresAt = 86401000\<rparr>,
         ''msg-2'' \<mapsto> \<lparr>data = createFallbackResponse 0 ''hello'' ''d''
                                  ''AI API error: 500 Internal Server Error'' (Some 0),
                        expiresAt = 300000\<rparr>],
      rateLimitMap =
        [''c'' \<mapsto> \<lparr>count = 15, resetTime = 350000\<rparr>,
         ''d'' \<mapsto> \<lparr>count = 2, resetTime = 350000\<rparr>],
      circuitBreaker = [''ai-api'' \<mapsto> \<lparr>failures = 3, lastFailure = 290000, isOpen = True\<rparr>]\<rparr>"

definition recovered :: env where
  "recovered = world 300500 (\<lambda>n. okBody ''hi there'')"

text \<open>The same service half a minute later, after the cooldown of the breaker.\<close>

definition cooled :: env where
  "cooled = world 330000 (\<lambda>n. okBody ''hi there'')"

text \<open>The service after one, two and three failed messages of conversation \<open>c\<close>.\<close>

definition failedTimes :: "int \<Rightarrow> service" where
  "failedTimes n =
     \<lparr>requestCache = Map.empty,
      rateLimitMap = [''c'' \<mapsto> \<lparr>count = n, resetTime = 61000\<rparr>],
      circuitBreaker = [''ai-api'' \<mapsto> \<lparr>failures = n, lastFailure = 1000, isOpen = (3 \<le> n)\<rparr>]\<rparr>"

text \<open>Nineteen and thirty-nine seconds after the last failure, with the upstream back.\<close>

definition soon :: env where
  "soon = world 20000 (\<lambda>n. okBody ''hi there'')"

definition later :: env where
  "later = world 40000 (\<lambda>n. okBody ''hi there'')"

text \<open>A client in the middle of a conversation, and a world whose server call fails.\<close>

definition chatting :: client where
  "chatting =
     \<lparr>currentConversationId = Some ''conv-1'',
      messages_c = [\<lparr>role = User, content = JString ''hi'', timestamp = 1\<rparr>,
                    \<lparr>role = Assistant, content = JString ''hi there'', timestamp = 2\<rparr>],
      isSending = False,
      streamingMessage = [],
      isStreaming = False,
      offlineQueue = [],
      connectionStatus = Online,
      persistedQueue = None\<rparr>"

definition refusing :: "string option \<Rightarrow> bool \<Rightarrow> client_env" where
  "refusing err written =
     \<lparr>timestampNow = 5000, convNow = (\<lambda>i. 5000), rpc = (\<lambda>i req. Rejects err),
      setItemOk = written, typingRandom = (\<lambda>i. 1 / 2),
      splitError = (\<lambda>v. ''fullResponse.split is not a function'')\<rparr>"







text \<open>
  An upstream that answers every POST with the number 42 as its completion. \<open>relayed\<close>
  is the request that the client sends for the text \<open>hello\<close> at time 5000, as the
  server reads it; \<open>numberReply\<close> is the response of a fresh service to it in that
  world, and \<open>relaying\<close> a client world whose server call resolves with that response.
\<close>

definition numberBody :: fetch_result where
  "numberBody = Answered 200 ''OK'' (Inr \<lparr>completion = Some (JNumber 42), tokensUsed_b = None\<rparr>)"

definition numberWorld :: env where
  "numberWorld = world 1000 (\<lambda>n. numberBody)"

definition relayed :: input where
  "relayed =
     \<lparr>conversationId = ''conv-1'', message = ''hello'',
      messages = messages_c chatting
                   @ [\<lparr>role = User, content = JString ''hello'', timestamp = 5000\<rparr>],
      idempotencyKey = Some ''msg-5000''\<rparr>"

definition numberReply :: response where
  "numberReply =
     \<lparr>success = True,
      message_r = \<lparr>role = Assistant, content = JNumber 42, timestamp = 1000\<rparr>,
      conversationId_r = ''conv-1'',
      metadata = \<lparr>processingTime = 0, model = liveModel, tokensUsed = Some (JNumber 2),
                  error = None, cached = False, endpoint = ''ai-api''\<rparr>\<rparr>"

definition relaying :: client_env where
  "relaying =
     \<lparr>timestampNow = 5000, convNow = (\<lambda>i. 5000),
      rpc = (\<lambda>i req. Resolves numberReply),
      setItemOk = True, typingRandom = (\<lambda>i. 1 / 2),
      splitError = (\<lambda>v. ''fullResponse.split is not a function'')\<rparr>"

text \<open>
  How the service gets into trouble. At time 0 conversation \<open>d\<close> sends \<open>msg-2\<close> and the
  upstream fails; at 1000 conversation \<open>c\<close> sends \<open>msg-1\<close> and is answered; at 290000
  the upstream fails twice for \<open>d\<close> and once for \<open>c\<close>, which opens the breaker; then
  \<open>c\<close> sends fourteen more messages, each answered by the open breaker.
\<close>

definition failing :: "int \<Rightarrow> env" where
  "failing t = world t (\<lambda>n. http500)"

definition answering :: "int \<Rightarrow> env" where
  "answering t = world t (\<lambda>n. okBody ''hi there'')"

definition staleFallback :: response where
  "staleFallback = createFallbackResponse 0 ''hello'' ''d''
                     ''AI API error: 500 Internal Server Error'' (Some 0)"

definition trouble ::
  "(string \<rightharpoonup> cache_entry) \<Rightarrow> rate_limit \<Rightarrow> rate_limit option \<Rightarrow> breaker \<Rightarrow> service" where
  "trouble cache d c b =
     \<lparr>requestCache = cache,
      rateLimitMap = (\<lambda>k. if k = ''d'' then Some d else if k = ''c'' then c else None),
      circuitBreaker = [''ai-api'' \<mapsto> b]\<rparr>"

definition bothCached :: "string \<rightharpoonup> cache_entry" where
  "bothCached = [''msg-2'' \<mapsto> \<lparr>data = staleFallback, expiresAt = 300000\<rparr>,
                 ''msg-1'' \<mapsto> \<lparr>data = storedReply, expiresAt = 86401000\<rparr>]"

section \<open>Evaluation lemmas\<close>

declare retryLoop.simps [simp del]
declare showNat.simps [simp del]

section \<open>The retry loop\<close>

lemma attemptOnce_error:
  "attemptOnce e msg msgs n = Inl err \<Longrightarrow> \<exists>reason. err = Error reason"
  by (auto simp: attemptOnce_def Let_def split: fetch_result.splits sum.splits option.splits if_splits)

lemma attemptOnce_completion:
  "attemptOnce e msg msgs n = Inr r \<Longrightarrow> truthy (completion_a r)"
  by (auto simp: attemptOnce_def Let_def split: fetch_result.splits sum.splits option.splits if_splits)

lemma retryLoop_completion:
  "retryLoop e msg msgs mx a le ds = (Inr r, tr) \<Longrightarrow> truthy (completion_a r)"
proof (induction e msg msgs mx a le ds rule: retryLoop.induct)
  case (1 e msg msgs mx a le ds)
  show ?case
  proof (cases "a \<le> mx")
    case False
    with "1.prems" show ?thesis by (simp add: retryLoop.simps [of e msg msgs mx a])
  next
    case True
    show ?thesis
    proof (cases "attemptOnce e msg msgs a")
      case (Inr r')
      with True "1.prems" have "r' = r" by (simp add: retryLoop.simps [of e msg msgs mx a])
      with Inr show ?thesis by (auto dest: attemptOnce_completion)
    next
      case (Inl err)
      with True "1.prems" "1.IH" show ?thesis
        by (simp add: retryLoop.simps [of e msg msgs mx a])
    qed
  qed
qed

lemma retryLoop_defined:
  "retryLoop e msg msgs mx a le ds = (Inl err, tr) \<Longrightarrow> le \<noteq> Undefined \<or> a \<le> mx \<Longrightarrow> err \<noteq> Undefined"
proof (induction e msg msgs mx a le ds rule: retryLoop.induct)
  case (1 e msg msgs mx a le ds)
  show ?case
  proof (cases "a \<le> mx")
    case False
    with "1.prems" show ?thesis by (simp add: retryLoop.simps [of e msg msgs mx a])
  next
    case True
    show ?thesis
    proof (cases "attemptOnce e msg msgs a")
      case (Inr r')
      with True "1.prems" show ?thesis by (simp add: retryLoop.simps [of e msg msgs mx a])
    next
      case (Inl err')
      then obtain reason where "err' = Error reason" by (auto dest: attemptOnce_error)
      with Inl True "1.prems" "1.IH" show ?thesis
        by (simp add: retryLoop.simps [of e msg msgs mx a])
    qed
  qed
qed

lemma retryLoop_fail:
  "attemptOnce e msg msgs a = Inl err \<Longrightarrow> a \<le> mx \<Longrightarrow>
   retryLoop e msg msgs mx a le ds =
     retryLoop e msg msgs mx (a + 1) err (if a < mx then ds @ [backoff e a] else ds)"
  by (simp add: retryLoop.simps [of e msg msgs mx a])

lemma retryLoop_ok:
  "attemptOnce e msg msgs a = Inr r \<Longrightarrow> a \<le> mx \<Longrightarrow>
   retryLoop e msg msgs mx a le ds = (Inr r, \<lparr>attempts = a, delays = ds\<rparr>)"
  by (simp add: retryLoop.simps [of e msg msgs mx a])

lemma retryLoop_done:
  "mx < a \<Longrightarrow> retryLoop e msg msgs mx a le ds = (Inl le, \<lparr>attempts = a - 1, delays = ds\<rparr>)"
  by (simp add: retryLoop.simps [of e msg msgs mx a])

lemma callAIWithRetry_3:
  "callAIWithRetry e msg msgs 3 =
     (case attemptOnce e msg msgs 1 of
        Inr r \<Rightarrow> (Inr r, \<lparr>attempts = 1, delays = []\<rparr>)
      | Inl e1 \<Rightarrow>
         (case attemptOnce e msg msgs 2 of
            Inr r \<Rightarrow> (Inr r, \<lparr>attempts = 2, delays = [backoff e 1]\<rparr>)
          | Inl e2 \<Rightarrow>
             (case attemptOnce e msg msgs 3 of
                Inr r \<Rightarrow> (Inr r, \<lparr>attempts = 3, delays = [backoff e 1, backoff e 2]\<rparr>)
              | Inl e3 \<Rightarrow> (Inl e3, \<lparr>attempts = 3, delays = [backoff e 1, backoff e 2]\<rparr>))))"
proof -
  let ?b1 = "[backoff e 1]" and ?b2 = "[backoff e 1, backoff e 2]"
  have two: "(1::nat) + 1 = 2" and three: "(2::nat) + 1 = 3" and four: "(3::nat) + 1 = 4"
    by simp_all
  show ?thesis
  proof (cases "attemptOnce e msg msgs 1")
    case r1: (Inr r)
    have "retryLoop e msg msgs 3 1 Undefined [] = (Inr r, \<lparr>attempts = 1, delays = []\<rparr>)"
      by (rule retryLoop_ok [OF r1]) simp
    with r1 show ?thesis unfolding callAIWithRetry_def by simp
  next
    case l1: (Inl e1)
    have s1: "retryLoop e msg msgs 3 1 Undefined [] = retryLoop e msg msgs 3 2 e1 ?b1"
      using retryLoop_fail [OF l1, of 3 Undefined "[]"] unfolding two by simp
    show ?thesis
    proof (cases "attemptOnce e msg msgs 2")
      case r2: (Inr r)
      have "retryLoop e msg msgs 3 2 e1 ?b1 = (Inr r, \<lparr>attempts = 2, delays = ?b1\<rparr>)"
        by (rule retryLoop_ok [OF r2]) simp
      with l1 r2 s1 show ?thesis unfolding callAIWithRetry_def by simp
    next
      case l2: (Inl e2)
      have s2: "retryLoop e msg msgs 3 2 e1 ?b1 = retryLoop e msg msgs 3 3 e2 ?b2"
        using retryLoop_fail [OF l2, of 3 e1 ?b1] unfolding three by simp
      show ?thesis
      proof (cases "attemptOnce e msg msgs 3")
        case r3: (Inr r)
        have "retryLoop e msg msgs 3 3 e2 ?b2 = (Inr r, \<lparr>attempts = 3, delays = ?b2\<rparr>)"
          by (rule retryLoop_ok [OF r3]) simp
        with l1 l2 r3 s1 s2 show ?thesis unfolding callAIWithRetry_def by simp
      next
        case l3: (Inl e3)
        have s3: "retryLoop e msg msgs 3 3 e2 ?b2 = retryLoop e msg msgs 3 4 e3 ?b2"
          using retryLoop_fail [OF l3, of 3 e2 ?b2] unfolding four by simp
        have "retryLoop e msg msgs 3 4 e3 ?b2 = (Inl e3, \<lparr>attempts = 3, delays = ?b2\<rparr>)"
          using retryLoop_done [of 3 4 e msg msgs e3 ?b2] by simp
        with l1 l2 l3 s1 s2 s3 show ?thesis unfolding callAIWithRetry_def by simp
      qed
    qed
  qed
qed


lemma attemptOnce_model:
  "attemptOnce e msg msgs n = Inr r \<Longrightarrow> model_a r = liveModel"
  by (auto simp: attemptOnce_def Let_def split: fetch_result.splits sum.splits option.splits if_splits)

lemma callAIWithRetry_model:
  "callAIWithRetry e msg msgs 3 = (Inr r, tr) \<Longrightarrow> model_a r = liveModel"
  by (auto simp: callAIWithRetry_3 split: sum.splits dest: attemptOnce_model)


text \<open>What is returned is what the last attempt returned, and that is what the body held.\<close>

lemma retryLoop_returns:
  "retryLoop e msg msgs mx a le ds = (Inr r, tr) \<Longrightarrow>
     attemptOnce e msg msgs (attempts tr) = Inr r \<and> a \<le> attempts tr \<and> attempts tr \<le> mx"
proof (induction e msg msgs mx a le ds rule: retryLoop.induct)
  case (1 e msg msgs mx a le ds)
  show ?case
  proof (cases "a \<le> mx")
    case False
    with "1.prems" show ?thesis by (simp add: retryLoop.simps [of e msg msgs mx a])
  next
    case True
    show ?thesis
    proof (cases "attemptOnce e msg msgs a")
      case (Inr r')
      with True "1.prems" show ?thesis by (auto simp: retryLoop.simps [of e msg msgs mx a])
    next
      case (Inl err)
      with True "1.prems" "1.IH" show ?thesis
        by (simp add: retryLoop.simps [of e msg msgs mx a])
    qed
  qed
qed

lemma attemptOnce_body:
  "attemptOnce e msg msgs n = Inr r \<Longrightarrow>
     \<exists>status statusText d.
        fetch e (requestBody msg msgs) n = Answered status statusText (Inr d) \<and> ok status
      \<and> completion d = Some (completion_a r)"
  by (auto simp: attemptOnce_def Let_def split: fetch_result.splits sum.splits option.splits if_splits)

lemma truthy_string: "truthy v \<Longrightarrow> isString v \<Longrightarrow> v \<noteq> JString []"
  by (cases v) simp_all
section \<open>The steps of processMessage\<close>

lemma checkRateLimit_frame:
  "checkRateLimit t key s = (adm, s') \<Longrightarrow>
     requestCache s' = requestCache s \<and> circuitBreaker s' = circuitBreaker s"
  by (auto simp: checkRateLimit_def Let_def split: option.splits if_splits)

lemma checkRateLimit_reject:
  "checkRateLimit t key s = (False, s') \<Longrightarrow> s' = s"
  by (auto simp: checkRateLimit_def Let_def split: option.splits if_splits)

lemma callAIWithRetry_attempts:
  "callAIWithRetry e msg msgs 3 = (res, tr) \<Longrightarrow> 1 \<le> attempts tr \<and> attempts tr \<le> 3"
  by (auto simp: callAIWithRetry_3 split: sum.splits)

lemma callAIWithRetry_3_defined:
  "callAIWithRetry e msg msgs 3 = (Inl err, tr) \<Longrightarrow> \<exists>reason. err = Error reason"
  by (auto simp: callAIWithRetry_3 split: sum.splits dest: attemptOnce_error)

lemma callUpstream_returns:
  "\<exists>r s' tr. callUpstream e inp s = (Inr r, s', tr) \<and> 1 \<le> attempts tr"
proof (cases "callAIWithRetry e (message inp) (messages inp) 3")
  case (Pair res tr)
  note att = callAIWithRetry_attempts [OF Pair]
  show ?thesis
  proof (cases res)
    case (Inr result)
    with Pair att show ?thesis by (simp add: callUpstream_def Let_def)
  next
    case (Inl err)
    with Pair obtain reason where "err = Error reason"
      by (auto dest: callAIWithRetry_3_defined)
    with Pair Inl att show ?thesis by (simp add: callUpstream_def Let_def)
  qed
qed

text \<open>
  The four ways through \<open>processMessage\<close>: rejected by the rate limiter, answered
  from the idempotency cache, answered by the open breaker, or handed to the upstream
  call. Only the last makes any POST.
\<close>

lemma processMessage_cases:
  assumes "processMessage e inp s = (res, s', tr)"
  obtains
    (limited) "checkRateLimit (now e RateLimitNow) (conversationId inp) s = (False, s)"
      "res = Inl (Error rateLimitMessage)" "s' = s" "tr = noCalls"
  | (replayed) s1 key hit where
      "checkRateLimit (now e RateLimitNow) (conversationId inp) s = (True, s1)"
      "givenKey (idempotencyKey inp) = Some key"
      "checkIdempotency (now e IdempotencyNow) key s1 = (Some hit, s')"
      "res = Inr hit" "tr = noCalls"
  | (tripped) s1 s2 where
      "checkRateLimit (now e RateLimitNow) (conversationId inp) s = (True, s1)"
      "(case givenKey (idempotencyKey inp) of None \<Rightarrow> (None, s1)
        | Some key \<Rightarrow> checkIdempotency (now e IdempotencyNow) key s1) = (None, s2)"
      "checkCircuitBreaker (now e BreakerNow) ''ai-api'' s2 = (False, s')"
      "res = Inr (createFallbackResponse (now e TimestampNow) (message inp)
                    (conversationId inp) ''Circuit breaker open'' None)"
      "tr = noCalls"
  | (upstream) s1 s2 s3 where
      "checkRateLimit (now e RateLimitNow) (conversationId inp) s = (True, s1)"
      "(case givenKey (idempotencyKey inp) of None \<Rightarrow> (None, s1)
        | Some key \<Rightarrow> checkIdempotency (now e IdempotencyNow) key s1) = (None, s2)"
      "checkCircuitBreaker (now e BreakerNow) ''ai-api'' s2 = (True, s3)"
      "callUpstream e inp s3 = (res, s', tr)"
proof (cases "checkRateLimit (now e RateLimitNow) (conversationId inp) s")
  case rl: (Pair adm s1)
  show ?thesis
  proof (cases adm)
    case False
    with rl have "s1 = s" by (auto dest: checkRateLimit_reject)
    with rl False assms show ?thesis
      by (intro limited) (auto simp: processMessage_def)
  next
    case True
    show ?thesis
    proof (cases "case givenKey (idempotencyKey inp) of None \<Rightarrow> (None, s1)
        | Some key \<Rightarrow> checkIdempotency (now e IdempotencyNow) key s1")
      case idem: (Pair found s2)
      show ?thesis
      proof (cases found)
        case (Some hit)
        with idem obtain key where k: "givenKey (idempotencyKey inp) = Some key"
          and c: "checkIdempotency (now e IdempotencyNow) key s1 = (Some hit, s2)"
          by (auto split: option.splits)
        from rl True idem Some assms have "res = Inr hit" "s' = s2" "tr = noCalls"
          by (auto simp: processMessage_def)
        with rl True k c show ?thesis by (intro replayed) auto
      next
        case None
        show ?thesis
        proof (cases "checkCircuitBreaker (now e BreakerNow) ''ai-api'' s2")
          case cb: (Pair pass s3)
          show ?thesis
          proof (cases pass)
            case False
            with rl True idem None cb assms show ?thesis
              by (intro tripped [of s1 s2]) (auto simp: processMessage_def)
          next
            case t: True
            with rl True idem None cb assms show ?thesis
              by (intro upstream [of s1 s2 s3]) (auto simp: processMessage_def)
          qed
        qed
      qed
    qed
  qed
qed

section \<open>When every attempt fails\<close>

lemma isl_Inl: "isl x \<Longrightarrow> \<exists>y. x = Inl y"
  by (cases x) simp_all

lemma attemptOnce_isl:
  "isl (attemptOnce e msg msgs n) \<Longrightarrow> \<exists>reason. attemptOnce e msg msgs n = Inl (Error reason)"
proof -
  assume "isl (attemptOnce e msg msgs n)"
  then obtain err where a: "attemptOnce e msg msgs n = Inl err" by (blast dest: isl_Inl)
  then obtain reason where "err = Error reason" by (blast dest: attemptOnce_error)
  with a show ?thesis by blast
qed

lemma allAttemptsFail_3:
  assumes "allAttemptsFail e msg msgs"
  obtains r1 r2 r3 where
    "attemptOnce e msg msgs 1 = Inl (Error r1)"
    "attemptOnce e msg msgs 2 = Inl (Error r2)"
    "attemptOnce e msg msgs 3 = Inl (Error r3)"
proof -
  from assms have "isl (attemptOnce e msg msgs 1)" "isl (attemptOnce e msg msgs 2)"
    "isl (attemptOnce e msg msgs 3)"
    unfolding allAttemptsFail_def by blast+
  then show ?thesis using that by (blast dest: attemptOnce_isl)
qed

lemma callAIWithRetry_exhausted:
  assumes "allAttemptsFail e msg msgs"
  obtains reason where "attemptOnce e msg msgs 3 = Inl (Error reason)"
    "callAIWithRetry e msg msgs 3 =
       (Inl (Error reason), \<lparr>attempts = 3, delays = [backoff e 1, backoff e 2]\<rparr>)"
proof -
  from assms obtain r1 r2 r3 where
    "attemptOnce e msg msgs 1 = Inl (Error r1)"
    "attemptOnce e msg msgs 2 = Inl (Error r2)"
    "attemptOnce e msg msgs 3 = Inl (Error r3)"
    by (rule allAttemptsFail_3)
  then show ?thesis using that [of r3] by (simp add: callAIWithRetry_3)
qed

lemma callUpstream_exhausted:
  assumes "allAttemptsFail e (message inp) (messages inp)"
  obtains reason where "attemptOnce e (message inp) (messages inp) 3 = Inl (Error reason)"
    "fst (callUpstream e inp s) =
       Inr (createFallbackResponse (now e TimestampNow) (message inp) (conversationId inp)
              reason (Some (now e ElapsedNow - now e StartTime)))"
    "snd (snd (callUpstream e inp s)) = \<lparr>attempts = 3, delays = [backoff e 1, backoff e 2]\<rparr>"
proof -
  from assms obtain reason where a: "attemptOnce e (message inp) (messages inp) 3 = Inl (Error reason)"
    and c: "callAIWithRetry e (message inp) (messages inp) 3 =
       (Inl (Error reason), \<lparr>attempts = 3, delays = [backoff e 1, backoff e 2]\<rparr>)"
    by (rule callAIWithRetry_exhausted)
  from c have "fst (callUpstream e inp s) =
       Inr (createFallbackResponse (now e TimestampNow) (message inp) (conversationId inp)
              reason (Some (now e ElapsedNow - now e StartTime)))"
    "snd (snd (callUpstream e inp s)) = \<lparr>attempts = 3, delays = [backoff e 1, backoff e 2]\<rparr>"
    by (simp_all add: callUpstream_def Let_def)
  with a show ?thesis using that by blast
qed

lemma processMessage_exhausted:
  assumes run: "processMessage e inp s = (res, s', tr)"
    and tried: "attempts tr \<noteq> 0"
    and fail: "allAttemptsFail e (message inp) (messages inp)"
  obtains reason where "attemptOnce e (message inp) (messages inp) 3 = Inl (Error reason)"
    "res = Inr (createFallbackResponse (now e TimestampNow) (message inp) (conversationId inp)
              reason (Some (now e ElapsedNow - now e StartTime)))"
    "tr = \<lparr>attempts = 3, delays = [backoff e 1, backoff e 2]\<rparr>"
  using run
proof (cases rule: processMessage_cases)
  case limited
  with tried show ?thesis by (simp add: noCalls_def)
next
  case (replayed s1 key hit)
  with tried show ?thesis by (simp add: noCalls_def)
next
  case (tripped s1 s2)
  with tried show ?thesis by (simp add: noCalls_def)
next
  case (upstream s1 s2 s3)
  from fail obtain reason where
    a: "attemptOnce e (message inp) (messages inp) 3 = Inl (Error reason)" and
    f: "fst (callUpstream e inp s3) =
       Inr (createFallbackResponse (now e TimestampNow) (message inp) (conversationId inp)
              reason (Some (now e ElapsedNow - now e StartTime)))" and
    t: "snd (snd (callUpstream e inp s3)) = \<lparr>attempts = 3, delays = [backoff e 1, backoff e 2]\<rparr>"
    by (rule callUpstream_exhausted)
  from upstream(4) f t have "res = Inr (createFallbackResponse (now e TimestampNow) (message inp)
      (conversationId inp) reason (Some (now e ElapsedNow - now e StartTime)))"
    "tr = \<lparr>attempts = 3, delays = [backoff e 1, backoff e 2]\<rparr>"
    by simp_all
  with a show ?thesis using that by blast
qed

lemma backoff_range:
  assumes "randomInRange e"
  shows "\<exists>j. backoff e n = 2 ^ (n - 1) * 1000 + j \<and> 0 \<le> j \<and> j < 500"
proof -
  from assms have "0 \<le> jitterRandom e n" "jitterRandom e n < 1"
    by (simp_all add: randomInRange_def)
  then have "0 \<le> jitterRandom e n * 500" "jitterRandom e n * 500 < 500" by simp_all
  then show ?thesis unfolding backoff_def by blast
qed


lemma createFallbackResponse_fields:
  "success (createFallbackResponse t msg cid reason el)"
  "model (metadata (createFallbackResponse t msg cid reason el)) = ''fallback''"
  "error (metadata (createFallbackResponse t msg cid reason el)) = Some reason"
  "endpoint (metadata (createFallbackResponse t msg cid reason el)) = ''fallback''"
  "\<not> cached (metadata (createFallbackResponse t msg cid reason el))"
  "role (message_r (createFallbackResponse t msg cid reason el)) = Assistant"
  "content (message_r (createFallbackResponse t msg cid reason el))
     = JString (generateEnhancedFallbackResponse msg reason)"
  "conversationId_r (createFallbackResponse t msg cid reason el) = cid"
  by (simp_all add: createFallbackResponse_def)
section \<open>What each step leaves alone\<close>

lemma checkIdempotency_frame:
  "checkIdempotency t key s = (found, s') \<Longrightarrow>
     rateLimitMap s' = rateLimitMap s \<and> circuitBreaker s' = circuitBreaker s"
  by (auto simp: checkIdempotency_def split: option.splits if_splits)

lemma lookup_frame:
  "(case k of None \<Rightarrow> (None, s) | Some key \<Rightarrow> checkIdempotency t key s) = (found, s') \<Longrightarrow>
     rateLimitMap s' = rateLimitMap s \<and> circuitBreaker s' = circuitBreaker s"
  by (cases k) (auto dest: checkIdempotency_frame)

lemma checkCircuitBreaker_frame:
  "checkCircuitBreaker t ep s = (pass, s') \<Longrightarrow>
     rateLimitMap s' = rateLimitMap s \<and> requestCache s' = requestCache s"
  by (auto simp: checkCircuitBreaker_def Let_def split: option.splits if_splits)

lemma recordSuccess_frame:
  "rateLimitMap (recordSuccess ep s) = rateLimitMap s"
  "requestCache (recordSuccess ep s) = requestCache s"
  by (simp_all add: recordSuccess_def split: option.splits)

lemma recordFailure_frame:
  "rateLimitMap (recordFailure t ep s) = rateLimitMap s"
  "requestCache (recordFailure t ep s) = requestCache s"
  by (simp_all add: recordFailure_def Let_def)

lemma setIdempotencyCache_frame:
  "rateLimitMap (setIdempotencyCache t key r ttl s) = rateLimitMap s"
  "circuitBreaker (setIdempotencyCache t key r ttl s) = circuitBreaker s"
  by (simp_all add: setIdempotencyCache_def)

lemma callUpstream_rateLimitMap:
  "callUpstream e inp s = (res, s', tr) \<Longrightarrow> rateLimitMap s' = rateLimitMap s"
  by (auto simp: callUpstream_def Let_def recordSuccess_frame recordFailure_frame
      setIdempotencyCache_frame split: prod.splits sum.splits js_error.splits option.splits)

lemma processMessage_rateLimitMap:
  assumes "processMessage e inp s = (res, s', tr)"
  shows "rateLimitMap s' =
           rateLimitMap (snd (checkRateLimit (now e RateLimitNow) (conversationId inp) s))"
  using assms
proof (cases rule: processMessage_cases)
  case limited
  then show ?thesis by simp
next
  case (replayed s1 key hit)
  then show ?thesis by (auto dest: checkIdempotency_frame)
next
  case (tripped s1 s2)
  then show ?thesis by (auto dest!: lookup_frame checkCircuitBreaker_frame)
next
  case (upstream s1 s2 s3)
  then show ?thesis
    by (auto dest!: lookup_frame checkCircuitBreaker_frame callUpstream_rateLimitMap)
qed

section \<open>Runs and the rate-limit window\<close>

lemma perform_simps:
  "asked (perform s c) = snd c" "before (perform s c) = s"
  "outcome (perform s c) = fst (processMessage (fst c) (snd c) s)"
  "after (perform s c) = fst (snd (processMessage (fst c) (snd c) s))"
  "made (perform s c) = snd (snd (processMessage (fst c) (snd c) s))"
  by (simp_all add: perform_def split: prod.splits)

lemma processMessage_rejected_iff:
  assumes "processMessage e inp s = (res, s', tr)"
  shows "(res = Inl (Error rateLimitMessage)) =
           (\<not> fst (checkRateLimit (now e RateLimitNow) (conversationId inp) s))"
  using assms
proof (cases rule: processMessage_cases)
  case (upstream s1 s2 s3)
  obtain r where "res = Inr r" using callUpstream_returns [of e inp s3] upstream(4) by auto
  with upstream(1) show ?thesis by simp
qed simp_all

lemma processMessage_rejected_frame:
  assumes "processMessage e inp s = (res, s', tr)" and "res = Inl (Error rateLimitMessage)"
  shows "s' = s \<and> tr = noCalls"
  using assms(1)
proof (cases rule: processMessage_cases)
  case (upstream s1 s2 s3)
  obtain r where "res = Inr r" using callUpstream_returns [of e inp s3] upstream(4) by auto
  with assms(2) show ?thesis by simp
qed (use assms(2) in simp_all)

lemma perform_rejected_iff:
  "rejected (perform s c) =
     (\<not> fst (checkRateLimit (now (fst c) RateLimitNow) (conversationId (snd c)) s))"
  unfolding rejected_def perform_simps
  by (rule processMessage_rejected_iff [of "fst c" "snd c" s _
        "fst (snd (processMessage (fst c) (snd c) s))" "snd (snd (processMessage (fst c) (snd c) s))"])
     simp

lemma perform_rejected_frame:
  assumes "rejected (perform s c)"
  shows "outcome (perform s c) = Inl (Error rateLimitMessage)
         \<and> after (perform s c) = before (perform s c) \<and> made (perform s c) = noCalls"
proof -
  from assms have o: "fst (processMessage (fst c) (snd c) s) = Inl (Error rateLimitMessage)"
    by (simp add: rejected_def perform_simps)
  have "processMessage (fst c) (snd c) s
          = (fst (processMessage (fst c) (snd c) s),
             fst (snd (processMessage (fst c) (snd c) s)),
             snd (snd (processMessage (fst c) (snd c) s)))"
    by simp
  from processMessage_rejected_frame [OF this o] o show ?thesis
    by (simp add: perform_simps)
qed

lemma perform_rateLimitMap:
  "rateLimitMap (after (perform s c)) =
     rateLimitMap (snd (checkRateLimit (now (fst c) RateLimitNow) (conversationId (snd c)) s))"
  unfolding perform_simps
  by (rule processMessage_rateLimitMap [of "fst c" "snd c" s
        "fst (processMessage (fst c) (snd c) s)" _ "snd (snd (processMessage (fst c) (snd c) s))"])
     simp

lemma run_rejected_frame:
  "r \<in> set (run s cs) \<Longrightarrow> rejected r \<Longrightarrow>
     outcome r = Inl (Error rateLimitMessage) \<and> after r = before r \<and> made r = noCalls"
proof (induction cs arbitrary: s)
  case Nil
  then show ?case by simp
next
  case (Cons c cs)
  then show ?case by (auto dest: perform_rejected_frame)
qed

text \<open>The rate limiter inside a window, outside it, and on another conversation.\<close>

lemma checkRateLimit_in_window:
  assumes "rateLimitMap s key = Some l" and "t \<le> resetTime l"
  shows "fst (checkRateLimit t key s) = (count l < 15)"
    and "rateLimitMap (snd (checkRateLimit t key s)) key
           = Some (if count l < 15 then l\<lparr>count := count l + 1\<rparr> else l)"
  using assms by (auto simp: checkRateLimit_def Let_def)

lemma checkRateLimit_opens:
  assumes "rateLimitMap s key = None \<or> (\<exists>l. rateLimitMap s key = Some l \<and> resetTime l < t)"
  shows "fst (checkRateLimit t key s)"
    and "rateLimitMap (snd (checkRateLimit t key s)) key
           = Some \<lparr>count = 1, resetTime = t + 60000\<rparr>"
  using assms by (auto simp: checkRateLimit_def Let_def)

lemma checkRateLimit_other:
  "key' \<noteq> key \<Longrightarrow> rateLimitMap (snd (checkRateLimit t key' s)) key = rateLimitMap s key"
  by (auto simp: checkRateLimit_def Let_def split: option.splits)

lemma run_window:
  assumes "rateLimitMap s cid = Some l"
    and "\<forall>c \<in> set cs. conversationId (snd c) = cid \<longrightarrow> now (fst c) RateLimitNow \<le> resetTime l"
  shows "map rejected (ofConversation cid (run s cs))
           = map (\<lambda>i. 15 \<le> count l + int i)
               [0 ..< length (filter (\<lambda>c. conversationId (snd c) = cid) cs)]"
  using assms
proof (induction cs arbitrary: s l)
  case Nil
  then show ?case by (simp add: ofConversation_def)
next
  case (Cons c cs)
  let ?s1 = "after (perform s c)"
  show ?case
  proof (cases "conversationId (snd c) = cid")
    case False
    then have "rateLimitMap ?s1 cid = Some l"
      using Cons.prems(1) by (simp add: perform_rateLimitMap checkRateLimit_other)
    from Cons.IH [OF this] Cons.prems(2) False show ?thesis
      by (simp add: ofConversation_def perform_simps)
  next
    case True
    with Cons.prems have t: "now (fst c) RateLimitNow \<le> resetTime l" by simp
    let ?l1 = "if count l < 15 then l\<lparr>count := count l + 1\<rparr> else l"
    from checkRateLimit_in_window [OF Cons.prems(1) t] True
    have adm: "rejected (perform s c) = (15 \<le> count l)"
      and l1: "rateLimitMap ?s1 cid = Some ?l1"
      by (simp_all add: perform_rejected_iff perform_rateLimitMap not_less)
    have "\<forall>c \<in> set cs. conversationId (snd c) = cid \<longrightarrow> now (fst c) RateLimitNow \<le> resetTime ?l1"
      using Cons.prems(2) by simp
    from Cons.IH [OF l1 this]
    have "map rejected (ofConversation cid (run ?s1 cs))
           = map (\<lambda>i. 15 \<le> count l + int (Suc i))
               [0 ..< length (filter (\<lambda>c. conversationId (snd c) = cid) cs)]"
      by (auto simp: ofConversation_def)
    with adm True show ?thesis
      by (simp add: ofConversation_def perform_simps map_upt_Suc del: upt_Suc)
  qed
qed

lemma count_admitted:
  "length (filter (\<lambda>b. \<not> b) (map (\<lambda>i. k \<le> int i) [0 ..< n])) \<le> nat k"
proof -
  have "filter (\<lambda>b. \<not> b) (map (\<lambda>i. k \<le> int i) [0 ..< n])
          = map (\<lambda>i. k \<le> int i) (filter (\<lambda>i. int i < k) [0 ..< n])"
    by (simp add: filter_map comp_def not_le)
  moreover have "set (filter (\<lambda>i. int i < k) [0 ..< n]) \<subseteq> {0 ..< nat k}" by auto
  moreover have "distinct (filter (\<lambda>i. int i < k) [0 ..< n])" by simp
  ultimately show ?thesis
    by (metis (no_types, lifting) card_atLeastLessThan card_mono distinct_card finite_atLeastLessThan
        length_map minus_nat.diff_0)
qed


lemma run_asked: "map asked (run s cs) = map snd cs"
  by (induction cs arbitrary: s) (simp_all add: perform_simps)

lemma ofConversation_all:
  assumes "\<forall>c \<in> set cs. conversationId (snd c) = cid"
  shows "ofConversation cid (run s cs) = run s cs"
proof -
  have "\<forall>r \<in> set (run s cs). conversationId (asked r) = cid"
  proof
    fix r assume "r \<in> set (run s cs)"
    then have "asked r \<in> set (map asked (run s cs))" by simp
    with assms show "conversationId (asked r) = cid" unfolding run_asked by auto
  qed
  then show ?thesis by (simp add: ofConversation_def)
qed

lemma length_run: "length (run s cs) = length cs"
  by (induction cs arbitrary: s) simp_all

section \<open>The cache never holds a flagged response\<close>

lemma cacheUnflagged_init: "cacheUnflagged init"
  by (simp add: cacheUnflagged_def init_def)

lemma cacheUnflagged_mono:
  "cacheUnflagged s \<Longrightarrow> requestCache s' \<subseteq>\<^sub>m requestCache s \<Longrightarrow> cacheUnflagged s'"
  unfolding cacheUnflagged_def ran_def map_le_def by (auto simp: dom_def) metis

lemma cacheUnflagged_eq:
  "cacheUnflagged s \<Longrightarrow> requestCache s' = requestCache s \<Longrightarrow> cacheUnflagged s'"
  by (simp add: cacheUnflagged_def)

lemma cacheUnflagged_cleanup: "cacheUnflagged s \<Longrightarrow> cacheUnflagged (cleanupExpired t key s)"
  by (rule cacheUnflagged_mono)
     (auto simp: cleanupExpired_def map_le_def split: option.splits)

lemma cacheUnflagged_store:
  "cacheUnflagged s \<Longrightarrow> \<not> cached (metadata r) \<Longrightarrow> cacheUnflagged (setIdempotencyCache t key r ttl s)"
  unfolding cacheUnflagged_def setIdempotencyCache_def
  by (auto simp: ran_def split: if_splits)

lemma checkIdempotency_unflagged:
  assumes "cacheUnflagged s" and "checkIdempotency t key s = (found, s')"
  shows "cacheUnflagged s'" and "found = Some hit \<Longrightarrow> \<not> cached (metadata hit)"
proof -
  from assms(2) have "requestCache s' \<subseteq>\<^sub>m requestCache s"
    by (auto simp: checkIdempotency_def map_le_def split: option.splits if_splits)
  with assms(1) show "cacheUnflagged s'" by (rule cacheUnflagged_mono)
  assume "found = Some hit"
  with assms(2) obtain c where "requestCache s key = Some c" "hit = data c"
    by (auto simp: checkIdempotency_def split: option.splits if_splits)
  with assms(1) show "\<not> cached (metadata hit)"
    by (auto simp: cacheUnflagged_def ran_def)
qed

lemma lookup_unflagged:
  assumes "cacheUnflagged s"
    and "(case k of None \<Rightarrow> (None, s) | Some key \<Rightarrow> checkIdempotency t key s) = (found, s')"
  shows "cacheUnflagged s'"
  using assms by (cases k) (auto dest: checkIdempotency_unflagged(1))

lemma callUpstream_unflagged:
  assumes "cacheUnflagged s" and "callUpstream e inp s = (Inr r, s', tr)"
  shows "\<not> cached (metadata r) \<and> cacheUnflagged s'"
proof (cases "callAIWithRetry e (message inp) (messages inp) 3")
  case (Pair res tr')
  show ?thesis
  proof (cases res)
    case (Inr result)
    let ?s1 = "recordSuccess ''ai-api'' s"
    have u: "cacheUnflagged ?s1"
      using assms(1) by (rule cacheUnflagged_eq) (simp add: recordSuccess_frame)
    have f: "\<not> cached (metadata (successResponse e inp result))"
      by (simp add: successResponse_def)
    from Pair Inr assms(2) have r: "r = successResponse e inp result"
      and s': "s' = (case givenKey (idempotencyKey inp) of None \<Rightarrow> ?s1
                     | Some key \<Rightarrow> setIdempotencyCache (now e CacheNow) key
                                    (successResponse e inp result) defaultTtl ?s1)"
      by (simp_all add: callUpstream_def Let_def)
    from u f have "cacheUnflagged s'" unfolding s'
      by (auto split: option.splits intro: cacheUnflagged_store)
    with f r show ?thesis by simp
  next
    case (Inl err)
    with Pair obtain reason where err: "err = Error reason"
      by (auto dest: callAIWithRetry_3_defined)
    let ?s1 = "recordFailure (now e FailureNow) ''ai-api'' s"
    let ?fb = "createFallbackResponse (now e TimestampNow) (message inp) (conversationId inp)
                 reason (Some (now e ElapsedNow - now e StartTime))"
    have u: "cacheUnflagged ?s1"
      using assms(1) by (rule cacheUnflagged_eq) (simp add: recordFailure_frame)
    have f: "\<not> cached (metadata ?fb)" by (simp add: createFallbackResponse_def)
    from Pair Inl err assms(2) have r: "r = ?fb"
      and s': "s' = (case givenKey (idempotencyKey inp) of None \<Rightarrow> ?s1
                     | Some key \<Rightarrow> setIdempotencyCache (now e CacheNow) key ?fb errorTtl ?s1)"
      by (simp_all add: callUpstream_def Let_def)
    from u f have "cacheUnflagged s'" unfolding s'
      by (auto split: option.splits intro: cacheUnflagged_store)
    with f r show ?thesis by simp
  qed
qed

lemma processMessage_unflagged:
  assumes inv: "cacheUnflagged s" and run: "processMessage e inp s = (res, s', tr)"
  shows "cacheUnflagged s' \<and> (\<forall>r. res = Inr r \<longrightarrow> \<not> cached (metadata r))"
  using run
proof (cases rule: processMessage_cases)
  case limited
  with inv show ?thesis by simp
next
  case (replayed s1 key hit)
  from inv replayed(1) have "cacheUnflagged s1"
    by (auto intro: cacheUnflagged_eq dest: checkRateLimit_frame)
  from checkIdempotency_unflagged [OF this replayed(3)] replayed(4) show ?thesis by simp
next
  case (tripped s1 s2)
  from inv tripped(1) have "cacheUnflagged s1"
    by (auto intro: cacheUnflagged_eq dest: checkRateLimit_frame)
  from lookup_unflagged [OF this tripped(2)] have "cacheUnflagged s2" .
  with tripped(3) have "cacheUnflagged s'"
    by (auto intro: cacheUnflagged_eq dest: checkCircuitBreaker_frame)
  with tripped(4) show ?thesis by (simp add: createFallbackResponse_def)
next
  case (upstream s1 s2 s3)
  from inv upstream(1) have "cacheUnflagged s1"
    by (auto intro: cacheUnflagged_eq dest: checkRateLimit_frame)
  from lookup_unflagged [OF this upstream(2)] have "cacheUnflagged s2" .
  with upstream(3) have s3: "cacheUnflagged s3"
    by (auto intro: cacheUnflagged_eq dest: checkCircuitBreaker_frame)
  obtain r s'' tr' where "callUpstream e inp s3 = (Inr r, s'', tr')"
    using callUpstream_returns by blast
  with upstream(4) have "callUpstream e inp s3 = (Inr r, s', tr)" "res = Inr r" by simp_all
  with callUpstream_unflagged [OF s3 this(1)] show ?thesis by simp
qed

lemma reachable_unflagged: "reachable s \<Longrightarrow> cacheUnflagged s"
proof (induction rule: reachable.induct)
  case start
  show ?case by (rule cacheUnflagged_init)
next
  case (call s e inp res s' tr)
  then show ?case by (blast dest: processMessage_unflagged)
next
  case (timer s t key)
  then show ?case by (simp add: cacheUnflagged_cleanup)
qed

section \<open>The idempotency step\<close>

lemma processMessage_replay:
  assumes adm: "checkRateLimit (now e RateLimitNow) (conversationId inp) s = (True, s1)"
    and key: "givenKey (idempotencyKey inp) = Some key"
    and entry: "requestCache s key = Some c"
    and live: "now e IdempotencyNow < expiresAt c"
  shows "processMessage e inp s = (Inr (data c), s1, noCalls)"
proof -
  from adm entry have "requestCache s1 key = Some c"
    by (auto dest: checkRateLimit_frame)
  with live have "checkIdempotency (now e IdempotencyNow) key s1 = (Some (data c), s1)"
    by (simp add: checkIdempotency_def)
  with adm key show ?thesis by (simp add: processMessage_def)
qed

lemma processMessage_expired:
  assumes adm: "checkRateLimit (now e RateLimitNow) (conversationId inp) s = (True, s1)"
    and key: "givenKey (idempotencyKey inp) = Some key"
    and entry: "requestCache s key = Some c"
    and dead: "expiresAt c \<le> now e IdempotencyNow"
    and cb: "checkCircuitBreaker (now e BreakerNow) ''ai-api''
               (s1\<lparr>requestCache := (requestCache s1)(key := None)\<rparr>) = (pass, s3)"
  shows "processMessage e inp s =
           (if pass then callUpstream e inp s3
            else (Inr (createFallbackResponse (now e TimestampNow) (message inp)
                         (conversationId inp) ''Circuit breaker open'' None), s3, noCalls))"
proof -
  from adm entry have "requestCache s1 key = Some c"
    by (auto dest: checkRateLimit_frame)
  with dead have "checkIdempotency (now e IdempotencyNow) key s1
                    = (None, s1\<lparr>requestCache := (requestCache s1)(key := None)\<rparr>)"
    by (simp add: checkIdempotency_def)
  with adm key cb show ?thesis by (simp add: processMessage_def)
qed

lemma callUpstream_attempts: "1 \<le> attempts (snd (snd (callUpstream e inp s)))"
  using callUpstream_returns [of e inp s] by auto

section \<open>The circuit breaker\<close>

lemma breakerSound_init: "breakerSound init"
  by (simp add: breakerSound_def init_def)

lemma breakerSound_eq:
  "breakerSound s \<Longrightarrow> circuitBreaker s' = circuitBreaker s \<Longrightarrow> breakerSound s'"
  by (simp add: breakerSound_def)

lemma breakerSound_upd:
  assumes "breakerSound s" and "isOpen b \<longrightarrow> 3 \<le> failures b"
  shows "breakerSound (s\<lparr>circuitBreaker := (circuitBreaker s)(ep \<mapsto> b)\<rparr>)"
  using assms unfolding breakerSound_def by (auto simp: ran_def split: if_splits)

lemma breakerSound_check:
  assumes "breakerSound s" and "checkCircuitBreaker t ep s = (pass, s')"
  shows "breakerSound s'"
proof (cases "circuitBreaker s ep")
  case None
  with assms(2) have "s' = s\<lparr>circuitBreaker :=
      (circuitBreaker s)(ep \<mapsto> \<lparr>failures = 0, lastFailure = 0, isOpen = False\<rparr>)\<rparr>"
    by (simp add: checkCircuitBreaker_def)
  with assms(1) show ?thesis by (simp add: breakerSound_upd)
next
  case (Some b)
  let ?b = "if isOpen b \<and> t - lastFailure b > cooldownPeriod
            then b\<lparr>isOpen := False, failures := 0\<rparr> else b"
  from assms(1) Some have "isOpen b \<longrightarrow> 3 \<le> failures b"
    by (auto simp: breakerSound_def ran_def)
  then have "isOpen ?b \<longrightarrow> 3 \<le> failures ?b" by simp
  moreover from Some assms(2) have "s' = s\<lparr>circuitBreaker := (circuitBreaker s)(ep \<mapsto> ?b)\<rparr>"
    by (simp add: checkCircuitBreaker_def Let_def)
  ultimately show ?thesis using assms(1) by (simp only: breakerSound_upd)
qed

lemma breakerSound_failure:
  assumes "breakerSound s"
  shows "breakerSound (recordFailure t ep s)"
proof -
  let ?b0 = "case circuitBreaker s ep of
               None \<Rightarrow> \<lparr>failures = 0, lastFailure = 0, isOpen = False\<rparr> | Some b \<Rightarrow> b"
  from assms have "isOpen ?b0 \<longrightarrow> 3 \<le> failures ?b0"
    by (auto simp: breakerSound_def ran_def split: option.splits)
  then show ?thesis
    unfolding recordFailure_def Let_def by (intro breakerSound_upd assms) auto
qed

lemma breakerSound_success: "breakerSound s \<Longrightarrow> breakerSound (recordSuccess ep s)"
  unfolding recordSuccess_def by (auto split: option.splits intro: breakerSound_upd)

lemma breakerSound_store:
  "breakerSound s \<Longrightarrow> breakerSound (setIdempotencyCache t key r ttl s)"
  by (erule breakerSound_eq) (simp add: setIdempotencyCache_frame)

lemma breakerSound_stored:
  "breakerSound s \<Longrightarrow>
   breakerSound (case k of None \<Rightarrow> s | Some key \<Rightarrow> setIdempotencyCache t key r ttl s)"
  by (cases k) (simp_all add: breakerSound_store)

lemma breakerSound_upstream:
  assumes "breakerSound s" and "callUpstream e inp s = (res, s', tr)"
  shows "breakerSound s'"
proof (cases "callAIWithRetry e (message inp) (messages inp) 3")
  case (Pair r tr')
  show ?thesis
  proof (cases r)
    case (Inr result)
    with Pair assms(2) have "s' = (case givenKey (idempotencyKey inp) of
        None \<Rightarrow> recordSuccess ''ai-api'' s
      | Some key \<Rightarrow> setIdempotencyCache (now e CacheNow) key (successResponse e inp result)
                     defaultTtl (recordSuccess ''ai-api'' s))"
      by (simp add: callUpstream_def Let_def)
    with assms(1) show ?thesis by (simp only: breakerSound_stored breakerSound_success)
  next
    case (Inl err)
    with Pair obtain reason where "err = Error reason"
      by (auto dest: callAIWithRetry_3_defined)
    with Pair Inl assms(2) have "s' = (case givenKey (idempotencyKey inp) of
        None \<Rightarrow> recordFailure (now e FailureNow) ''ai-api'' s
      | Some key \<Rightarrow> setIdempotencyCache (now e CacheNow) key
          (createFallbackResponse (now e TimestampNow) (message inp) (conversationId inp) reason
             (Some (now e ElapsedNow - now e StartTime)))
          errorTtl (recordFailure (now e FailureNow) ''ai-api'' s))"
      by (simp add: callUpstream_def Let_def)
    with assms(1) show ?thesis by (simp only: breakerSound_stored breakerSound_failure)
  qed
qed

lemma breakerSound_process:
  assumes inv: "breakerSound s" and run: "processMessage e inp s = (res, s', tr)"
  shows "breakerSound s'"
  using run
proof (cases rule: processMessage_cases)
  case limited
  with inv show ?thesis by simp
next
  case (replayed s1 key hit)
  with inv show ?thesis
    by (auto intro: breakerSound_eq dest!: checkRateLimit_frame checkIdempotency_frame)
next
  case (tripped s1 s2)
  from inv tripped(1,2) have "breakerSound s2"
    by (auto intro: breakerSound_eq dest!: checkRateLimit_frame lookup_frame)
  with tripped(3) show ?thesis by (blast intro: breakerSound_check)
next
  case (upstream s1 s2 s3)
  from inv upstream(1,2) have "breakerSound s2"
    by (auto intro: breakerSound_eq dest!: checkRateLimit_frame lookup_frame)
  with upstream(3) have "breakerSound s3" by (blast intro: breakerSound_check)
  with upstream(4) show ?thesis by (blast intro: breakerSound_upstream)
qed

lemma reachable_breakerSound: "reachable s \<Longrightarrow> breakerSound s"
proof (induction rule: reachable.induct)
  case start
  show ?case by (rule breakerSound_init)
next
  case (call s e inp res s' tr)
  then show ?case by (blast intro: breakerSound_process)
next
  case (timer s t key)
  then show ?case
    by (auto intro: breakerSound_eq simp: cleanupExpired_def split: option.splits)
qed

lemma processMessage_tripped:
  assumes adm: "checkRateLimit (now e RateLimitNow) (conversationId inp) s = (True, s1)"
    and miss: "(case givenKey (idempotencyKey inp) of None \<Rightarrow> (None, s1)
                | Some key \<Rightarrow> checkIdempotency (now e IdempotencyNow) key s1) = (None, s2)"
    and br: "circuitBreaker s ''ai-api'' = Some b"
    and opened: "isOpen b"
    and early: "now e BreakerNow - lastFailure b \<le> 30000"
  shows "processMessage e inp s =
           (Inr (createFallbackResponse (now e TimestampNow) (message inp) (conversationId inp)
                   ''Circuit breaker open'' None), s2, noCalls)"
    and "circuitBreaker s2 = circuitBreaker s"
proof -
  from adm miss show same: "circuitBreaker s2 = circuitBreaker s"
    by (auto dest!: checkRateLimit_frame lookup_frame)
  with br have b2: "circuitBreaker s2 ''ai-api'' = Some b" by simp
  then have "(circuitBreaker s2)(''ai-api'' \<mapsto> b) = circuitBreaker s2"
    by (rule map_upd_triv)
  with b2 opened early
  have "checkCircuitBreaker (now e BreakerNow) ''ai-api'' s2 = (False, s2)"
    by (simp add: checkCircuitBreaker_def cooldownPeriod_def)
  with adm miss show "processMessage e inp s =
           (Inr (createFallbackResponse (now e TimestampNow) (message inp) (conversationId inp)
                   ''Circuit breaker open'' None), s2, noCalls)"
    by (simp add: processMessage_def)
qed

lemma processMessage_cooled:
  assumes adm: "checkRateLimit (now e RateLimitNow) (conversationId inp) s = (True, s1)"
    and miss: "(case givenKey (idempotencyKey inp) of None \<Rightarrow> (None, s1)
                | Some key \<Rightarrow> checkIdempotency (now e IdempotencyNow) key s1) = (None, s2)"
    and br: "circuitBreaker s ''ai-api'' = Some b"
    and opened: "isOpen b"
    and late: "30000 < now e BreakerNow - lastFailure b"
  shows "processMessage e inp s =
           callUpstream e inp
             (s2\<lparr>circuitBreaker :=
                   (circuitBreaker s2)(''ai-api'' \<mapsto> b\<lparr>isOpen := False, failures := 0\<rparr>)\<rparr>)"
proof -
  from adm miss have "circuitBreaker s2 = circuitBreaker s"
    by (auto dest!: checkRateLimit_frame lookup_frame)
  with br have "circuitBreaker s2 ''ai-api'' = Some b" by simp
  with opened late
  have "checkCircuitBreaker (now e BreakerNow) ''ai-api'' s2 =
          (True, s2\<lparr>circuitBreaker :=
                      (circuitBreaker s2)(''ai-api'' \<mapsto> b\<lparr>isOpen := False, failures := 0\<rparr>)\<rparr>)"
    by (simp add: checkCircuitBreaker_def cooldownPeriod_def)
  with adm miss show ?thesis by (simp add: processMessage_def)
qed

section \<open>Three failures in a row\<close>

lemma showNat_500: "showNat 500 = ''500''"
  by code_simp

lemma codeUnits_hello: "codeUnits ''hello'' = 5"
  by code_simp

lemma attemptOnce_failingWorld:
  "attemptOnce failingWorld msg msgs n = Inl (Error ''AI API error: 500 Internal Server Error'')"
  by (simp add: attemptOnce_def failingWorld_def world_def http500_def ok_def showNat_500)

lemma now_failingWorld: "now failingWorld site = 1000"
  by (simp add: failingWorld_def world_def)

lemma callUpstream_failingWorld:
  "fst (snd (callUpstream failingWorld hello s)) = recordFailure 1000 ''ai-api'' s"
  by (simp add: callUpstream_def callAIWithRetry_3 attemptOnce_failingWorld Let_def
      givenKey_def hello_def ask_def now_failingWorld)

lemma failed_once: "fst (snd (processMessage failingWorld hello init)) = failedTimes 1"
proof -
  have "processMessage failingWorld hello init =
          callUpstream failingWorld hello
            (init\<lparr>rateLimitMap := [''c'' \<mapsto> \<lparr>count = 1, resetTime = 61000\<rparr>],
                  circuitBreaker := [''ai-api'' \<mapsto> \<lparr>failures = 0, lastFailure = 0, isOpen = False\<rparr>]\<rparr>)"
    by (simp add: processMessage_def checkRateLimit_def checkCircuitBreaker_def givenKey_def
        hello_def ask_def now_failingWorld init_def)
  then show ?thesis
    by (simp add: callUpstream_failingWorld recordFailure_def failedTimes_def init_def)
qed

lemma failed_again:
  assumes "1 \<le> n" "n < 3"
  shows "fst (snd (processMessage failingWorld hello (failedTimes n))) = failedTimes (n + 1)"
proof -
  have "processMessage failingWorld hello (failedTimes n) =
          callUpstream failingWorld hello
            ((failedTimes n)\<lparr>rateLimitMap := [''c'' \<mapsto> \<lparr>count = n + 1, resetTime = 61000\<rparr>]\<rparr>)"
    using assms
    by (simp add: processMessage_def checkRateLimit_def checkCircuitBreaker_def givenKey_def
        hello_def ask_def now_failingWorld failedTimes_def)
  then show ?thesis using assms
    by (auto simp: callUpstream_failingWorld recordFailure_def failedTimes_def Let_def)
qed

lemma reachable_step:
  "reachable s \<Longrightarrow> reachable (fst (snd (processMessage e inp s)))"
  by (rule reachable.call [of s e inp "fst (processMessage e inp s)" _
        "snd (snd (processMessage e inp s))"]) simp_all

lemma reachable_failedTimes: "reachable (failedTimes 3)"
proof -
  have "reachable (failedTimes 1)"
    using reachable_step [OF reachable.start, of failingWorld hello] by (simp add: failed_once)
  then have "reachable (failedTimes 2)"
    using reachable_step [of "failedTimes 1" failingWorld hello] failed_again [of 1] by simp
  then show ?thesis
    using reachable_step [of "failedTimes 2" failingWorld hello] failed_again [of 2] by simp
qed

section \<open>The success path\<close>

lemma circuitBreaker_checked:
  "checkCircuitBreaker t ep s = (pass, s') \<Longrightarrow> circuitBreaker s' ep \<noteq> None"
  by (auto simp: checkCircuitBreaker_def Let_def split: option.splits)

lemma recordSuccess_resets:
  "circuitBreaker s ep = Some b \<Longrightarrow>
     circuitBreaker (recordSuccess ep s) ep = Some (b\<lparr>failures := 0, isOpen := False\<rparr>)"
  by (simp add: recordSuccess_def)

section \<open>The send pipeline of the client\<close>

lemma adoptConversation_frame:
  "messages_c (adoptConversation c cid cur) = messages_c cur"
  "offlineQueue (adoptConversation c cid cur) = offlineQueue cur"
  "persistedQueue (adoptConversation c cid cur) = persistedQueue cur"
  "connectionStatus (adoptConversation c cid cur) = connectionStatus cur"
  "streamingMessage (adoptConversation c cid cur) = streamingMessage cur"
  "isStreaming (adoptConversation c cid cur) = isStreaming cur"
  "isSending (adoptConversation c cid cur) = isSending cur"
  by (simp_all add: adoptConversation_def split: option.splits)

lemma sendMessage_rejected:
  assumes "trim text \<noteq> []" and "\<not> isSending c" and "connectionStatus c \<noteq> Offline"
    and "rpc w 0 (sendRequest w text c) = Rejects err"
  shows "sendMessage w text c =
           (Threw (friendlyError err),
            (if isNetworkError err
             then saveOfflineQueue (setItemOk w) (offlineQueue c @ [userMessageOf w text])
                    ((adoptConversation c (conversationId_q (sendRequest w text c))
                        (c\<lparr>messages_c := messages_c c @ [userMessageOf w text],
                           isSending := True, isStreaming := True, streamingMessage := []\<rparr>))
                       \<lparr>connectionStatus := Offline\<rparr>)
             else (adoptConversation c (conversationId_q (sendRequest w text c))
                     (c\<lparr>messages_c := messages_c c @ [userMessageOf w text],
                        isSending := True, isStreaming := True, streamingMessage := []\<rparr>))
                    \<lparr>messages_c := messages_c c\<rparr>)
              \<lparr>streamingMessage := [], isStreaming := False, isSending := False\<rparr>,
            noEffects\<lparr>submitted := [sendRequest w text c]\<rparr>)"
  using assms by (simp add: sendMessage_def sendFailed_def Let_def adoptConversation_frame)

text \<open>A reply whose content is not a string ends in the same \<open>catch\<close> block.\<close>

lemma sendMessage_unreadable:
  assumes "trim text \<noteq> []" and "\<not> isSending c" and "connectionStatus c \<noteq> Offline"
    and "rpc w 0 (sendRequest w text c) = Resolves r" and "success r"
    and "\<forall>fullResponse. content (message_r r) \<noteq> JString fullResponse"
  shows "sendMessage w text c =
           sendFailed w c (userMessageOf w text)
             (adoptConversation c (conversationId_q (sendRequest w text c))
                (c\<lparr>messages_c := messages_c c @ [userMessageOf w text],
                   isSending := True, isStreaming := True, streamingMessage := []\<rparr>))
             (noEffects\<lparr>submitted := [sendRequest w text c]\<rparr>)
             (Some (splitError w (content (message_r r))))"
  using assms by (cases "content (message_r r)") (simp_all add: sendMessage_def Let_def)



text \<open>A text of white space only is not sent, whatever the white space.\<close>

lemma trim_blank:
  "trim [] = []"
  "trim ''  '' = []"
  "trim [CHR 0xC2, CHR 0xA0] = []"
  "trim [CHR 0xEF, CHR 0xBB, CHR 0xBF, CHR 0x09, CHR 0xE2, CHR 0x80, CHR 0xA8] = []"
  "trim ([CHR 0xE3, CHR 0x80, CHR 0x80] @ ''a b'' @ [CHR 0xE2, CHR 0x80, CHR 0x83, CHR 0x0A]) = ''a b''"
  by code_simp+

lemma sendMessage_blank: "trim text = [] \<Longrightarrow> sendMessage w text c = (Returned, c, noEffects)"
  by (simp add: sendMessage_def)
section \<open>The drain of the offline queue\<close>




section \<open>How the service gets into trouble\<close>

lemma now_world: "now (world t f) site = t"
  by (simp add: world_def)

lemma now_failing: "now (failing t) site = t"
  by (simp add: failing_def now_world)

lemma now_answering: "now (answering t) site = t"
  by (simp add: answering_def now_world)

lemma attemptOnce_failing:
  "attemptOnce (failing t) msg msgs n = Inl (Error ''AI API error: 500 Internal Server Error'')"
  by (simp add: attemptOnce_def failing_def world_def http500_def ok_def showNat_500)

lemma attemptOnce_answering:
  "attemptOnce (answering t) msg msgs n =
     Inr \<lparr>completion_a = JString ''hi there'', model_a = liveModel,
          tokensUsed_a = JNumber (real ((codeUnits msg + 3) div 4))\<rparr>"
  by (simp add: attemptOnce_def answering_def world_def okBody_def ok_def Let_def)

lemma callUpstream_failing:
  "fst (snd (callUpstream (failing t) inp s)) =
     (case givenKey (idempotencyKey inp) of
        None \<Rightarrow> recordFailure t ''ai-api'' s
      | Some key \<Rightarrow> setIdempotencyCache t key
          (createFallbackResponse t (message inp) (conversationId inp)
             ''AI API error: 500 Internal Server Error'' (Some 0))
          errorTtl (recordFailure t ''ai-api'' s))"
  by (simp add: callUpstream_def callAIWithRetry_3 attemptOnce_failing Let_def now_failing
      split: option.splits)

lemma callUpstream_answering:
  "fst (snd (callUpstream (answering t) inp s)) =
     (case givenKey (idempotencyKey inp) of
        None \<Rightarrow> recordSuccess ''ai-api'' s
      | Some key \<Rightarrow> setIdempotencyCache t key
          (successResponse (answering t) inp
             \<lparr>completion_a = JString ''hi there'', model_a = liveModel,
              tokensUsed_a = JNumber (real ((codeUnits (message inp) + 3) div 4))\<rparr>)
          defaultTtl (recordSuccess ''ai-api'' s))"
  by (simp add: callUpstream_def callAIWithRetry_3 attemptOnce_answering Let_def now_answering
      split: option.splits)

text \<open>One call on a service of the shape \<open>trouble\<close>, by the path it takes.\<close>

lemma trouble_upstream:
  assumes "checkRateLimit (now e RateLimitNow) (conversationId inp) (trouble cache d c b)
             = (True, trouble cache d' c' b)"
    and "case givenKey (idempotencyKey inp) of None \<Rightarrow> True | Some key \<Rightarrow> cache key = None"
    and "\<not> isOpen b"
  shows "processMessage e inp (trouble cache d c b) = callUpstream e inp (trouble cache d' c' b)"
proof -
  from assms(2) have "(case givenKey (idempotencyKey inp) of None \<Rightarrow> (None, trouble cache d' c' b)
        | Some key \<Rightarrow> checkIdempotency (now e IdempotencyNow) key (trouble cache d' c' b))
        = (None, trouble cache d' c' b)"
    by (auto simp: checkIdempotency_def trouble_def split: option.splits)
  moreover from assms(3)
  have "checkCircuitBreaker (now e BreakerNow) ''ai-api'' (trouble cache d' c' b)
          = (True, trouble cache d' c' b)"
    by (simp add: checkCircuitBreaker_def trouble_def)
  ultimately show ?thesis using assms(1) by (simp add: processMessage_def)
qed

lemma trouble_failed:
  "recordFailure t ''ai-api'' (trouble cache d c b)
     = trouble cache d c
         \<lparr>failures = failures b + 1, lastFailure = t, isOpen = (isOpen b \<or> 2 \<le> failures b)\<rparr>"
  by (cases b) (simp add: recordFailure_def trouble_def Let_def)

lemma trouble_succeeded:
  "recordSuccess ''ai-api'' (trouble cache d c b)
     = trouble cache d c \<lparr>failures = 0, lastFailure = lastFailure b, isOpen = False\<rparr>"
  by (cases b) (simp add: recordSuccess_def trouble_def)

lemma trouble_stored:
  "setIdempotencyCache t key r ttl (trouble cache d c b)
     = trouble (cache(key \<mapsto> \<lparr>data = r, expiresAt = t + ttl\<rparr>)) d c b"
  by (simp add: setIdempotencyCache_def trouble_def)

lemma trouble_limit_d:
  assumes "resetTime d < t \<or> count d < 15"
  shows "checkRateLimit t ''d'' (trouble cache d c b)
           = (True, trouble cache
                (if resetTime d < t then \<lparr>count = 1, resetTime = t + 60000\<rparr>
                 else d\<lparr>count := count d + 1\<rparr>) c b)"
  using assms by (auto simp: checkRateLimit_def trouble_def Let_def fun_eq_iff)

lemma trouble_limit_c:
  assumes "case c of None \<Rightarrow> True | Some l \<Rightarrow> resetTime l < t \<or> count l < 15"
  shows "checkRateLimit t ''c'' (trouble cache d c b)
           = (True, trouble cache d
                (case c of
                   None \<Rightarrow> Some \<lparr>count = 1, resetTime = t + 60000\<rparr>
                 | Some l \<Rightarrow> if resetTime l < t then Some \<lparr>count = 1, resetTime = t + 60000\<rparr>
                             else Some (l\<lparr>count := count l + 1\<rparr>)) b)"
  using assms by (auto simp: checkRateLimit_def trouble_def Let_def fun_eq_iff split: option.splits)


lemma trouble_tripped:
  assumes "checkRateLimit (now e RateLimitNow) (conversationId inp) (trouble cache d c b)
             = (True, trouble cache d' c' b)"
    and "givenKey (idempotencyKey inp) = None"
    and "isOpen b" and "now e BreakerNow - lastFailure b \<le> 30000"
  shows "fst (snd (processMessage e inp (trouble cache d c b))) = trouble cache d' c' b"
proof -
  have "(circuitBreaker (trouble cache d' c' b))(''ai-api'' \<mapsto> b)
          = circuitBreaker (trouble cache d' c' b)"
    by (simp add: trouble_def)
  with assms(3,4)
  have "checkCircuitBreaker (now e BreakerNow) ''ai-api'' (trouble cache d' c' b)
          = (False, trouble cache d' c' b)"
    by (simp add: checkCircuitBreaker_def cooldownPeriod_def trouble_def)
  with assms(1,2) show ?thesis by (simp add: processMessage_def)
qed

lemma failing_d:
  assumes "resetTime d < t \<or> count d < 15" and "\<not> isOpen b"
  shows "fst (snd (processMessage (failing t) (ask ''d'' msg None) (trouble cache d c b)))
           = trouble cache
               (if resetTime d < t then \<lparr>count = 1, resetTime = t + 60000\<rparr>
                else d\<lparr>count := count d + 1\<rparr>) c
               \<lparr>failures = failures b + 1, lastFailure = t, isOpen = (isOpen b \<or> 2 \<le> failures b)\<rparr>"
proof -
  let ?d = "if resetTime d < t then \<lparr>count = 1, resetTime = t + 60000\<rparr> else d\<lparr>count := count d + 1\<rparr>"
  have "processMessage (failing t) (ask ''d'' msg None) (trouble cache d c b)
          = callUpstream (failing t) (ask ''d'' msg None) (trouble cache ?d c b)"
    using trouble_limit_d [OF assms(1), where cache = cache and c = c and b = b] assms(2)
    by (intro trouble_upstream) (simp_all add: now_failing ask_def givenKey_def)
  then show ?thesis
    by (simp add: callUpstream_failing trouble_failed givenKey_def ask_def)
qed

lemma failing_c:
  assumes "case c of None \<Rightarrow> True | Some l \<Rightarrow> resetTime l < t \<or> count l < 15" and "\<not> isOpen b"
  shows "fst (snd (processMessage (failing t) (ask ''c'' msg None) (trouble cache d c b)))
           = trouble cache d
               (case c of
                  None \<Rightarrow> Some \<lparr>count = 1, resetTime = t + 60000\<rparr>
                | Some l \<Rightarrow> if resetTime l < t then Some \<lparr>count = 1, resetTime = t + 60000\<rparr>
                            else Some (l\<lparr>count := count l + 1\<rparr>))
               \<lparr>failures = failures b + 1, lastFailure = t, isOpen = (isOpen b \<or> 2 \<le> failures b)\<rparr>"
proof -
  let ?c = "case c of
              None \<Rightarrow> Some \<lparr>count = 1, resetTime = t + 60000\<rparr>
            | Some l \<Rightarrow> if resetTime l < t then Some \<lparr>count = 1, resetTime = t + 60000\<rparr>
                        else Some (l\<lparr>count := count l + 1\<rparr>)"
  have "processMessage (failing t) (ask ''c'' msg None) (trouble cache d c b)
          = callUpstream (failing t) (ask ''c'' msg None) (trouble cache d ?c b)"
    using trouble_limit_c [OF assms(1), where cache = cache and d = d and b = b] assms(2)
    by (intro trouble_upstream) (simp_all add: now_failing ask_def givenKey_def)
  then show ?thesis
    by (simp add: callUpstream_failing trouble_failed givenKey_def ask_def)
qed

lemma tripped_c:
  assumes "resetTime l \<ge> t" "count l < 15" and "isOpen b" and "t - lastFailure b \<le> 30000"
  shows "fst (snd (processMessage (failing t) (ask ''c'' msg None) (trouble cache d (Some l) b)))
           = trouble cache d (Some (l\<lparr>count := count l + 1\<rparr>)) b"
proof -
  have "checkRateLimit t ''c'' (trouble cache d (Some l) b)
          = (True, trouble cache d (Some (l\<lparr>count := count l + 1\<rparr>)) b)"
    using trouble_limit_c [where c = "Some l" and t = t and cache = cache and d = d and b = b]
      assms(1,2) by simp
  then show ?thesis
    using assms(3,4)
    by (intro trouble_tripped) (simp_all add: now_failing ask_def givenKey_def)
qed

lemma trouble_step1:
  "fst (snd (processMessage (failing 0) (ask ''d'' ''hello'' (Some ''msg-2'')) init))
     = trouble [''msg-2'' \<mapsto> \<lparr>data = staleFallback, expiresAt = 300000\<rparr>]
         \<lparr>count = 1, resetTime = 60000\<rparr> None
         \<lparr>failures = 1, lastFailure = 0, isOpen = False\<rparr>"
proof -
  let ?s = "trouble Map.empty \<lparr>count = 1, resetTime = 60000\<rparr> None
              \<lparr>failures = 0, lastFailure = 0, isOpen = False\<rparr>"
  have "checkRateLimit 0 ''d'' init = (True, init\<lparr>rateLimitMap := [''d'' \<mapsto> \<lparr>count = 1, resetTime = 60000\<rparr>]\<rparr>)"
    by (simp add: checkRateLimit_def init_def)
  moreover have "checkCircuitBreaker 0 ''ai-api''
                   (init\<lparr>rateLimitMap := [''d'' \<mapsto> \<lparr>count = 1, resetTime = 60000\<rparr>]\<rparr>) = (True, ?s)"
    by (auto simp: checkCircuitBreaker_def init_def trouble_def fun_eq_iff)
  ultimately have "processMessage (failing 0) (ask ''d'' ''hello'' (Some ''msg-2'')) init =
          callUpstream (failing 0) (ask ''d'' ''hello'' (Some ''msg-2'')) ?s"
    by (simp add: processMessage_def givenKey_def checkIdempotency_def ask_def now_failing init_def)
  then show ?thesis
    by (simp add: callUpstream_failing trouble_failed trouble_stored givenKey_def ask_def
        errorTtl_def staleFallback_def)
qed

lemma trouble_step2:
  "fst (snd (processMessage (answering 1000) (ask ''c'' ''hello'' (Some ''msg-1''))
               (trouble [''msg-2'' \<mapsto> \<lparr>data = staleFallback, expiresAt = 300000\<rparr>]
                  \<lparr>count = 1, resetTime = 60000\<rparr> None
                  \<lparr>failures = 1, lastFailure = 0, isOpen = False\<rparr>)))
     = trouble bothCached \<lparr>count = 1, resetTime = 60000\<rparr> (Some \<lparr>count = 1, resetTime = 61000\<rparr>)
         \<lparr>failures = 0, lastFailure = 0, isOpen = False\<rparr>"
proof -
  let ?cache = "[''msg-2'' \<mapsto> \<lparr>data = staleFallback, expiresAt = 300000\<rparr>]"
  let ?d = "\<lparr>count = 1, resetTime = 60000\<rparr>" and ?b = "\<lparr>failures = 1, lastFailure = 0, isOpen = False\<rparr>"
  have r: "successResponse (answering 1000) (ask ''c'' ''hello'' (Some ''msg-1''))
          \<lparr>completion_a = JString ''hi there'', model_a = liveModel, tokensUsed_a = JNumber 2\<rparr> = storedReply"
    by (simp add: successResponse_def storedReply_def now_answering ask_def liveModel_def)
  have "processMessage (answering 1000) (ask ''c'' ''hello'' (Some ''msg-1'')) (trouble ?cache ?d None ?b)
          = callUpstream (answering 1000) (ask ''c'' ''hello'' (Some ''msg-1''))
              (trouble ?cache ?d (Some \<lparr>count = 1, resetTime = 61000\<rparr>) ?b)"
    using trouble_limit_c [where c = None and t = 1000 and cache = ?cache and d = ?d and b = ?b]
    by (intro trouble_upstream) (simp_all add: now_answering ask_def givenKey_def)
  then show ?thesis
    by (simp add: callUpstream_answering trouble_succeeded trouble_stored givenKey_def ask_def
        defaultTtl_def bothCached_def r [unfolded ask_def] codeUnits_hello)
qed

lemma troubled_trouble:
  "troubled = trouble bothCached \<lparr>count = 2, resetTime = 350000\<rparr>
                (Some \<lparr>count = 15, resetTime = 350000\<rparr>)
                \<lparr>failures = 3, lastFailure = 290000, isOpen = True\<rparr>"
  by (auto simp: troubled_def trouble_def bothCached_def staleFallback_def fun_eq_iff)

lemma reachable_trouble:
  "reachable (trouble bothCached \<lparr>count = 2, resetTime = 350000\<rparr>
                (Some \<lparr>count = 1 + int k, resetTime = 350000\<rparr>)
                \<lparr>failures = 3, lastFailure = 290000, isOpen = True\<rparr>)"
  if "k < 15"
  using that
proof (induction k)
  case 0
  have "reachable (fst (snd (processMessage (failing 0) (ask ''d'' ''hello'' (Some ''msg-2'')) init)))"
    by (rule reachable_step [OF reachable.start])
  then have "reachable (trouble [''msg-2'' \<mapsto> \<lparr>data = staleFallback, expiresAt = 300000\<rparr>]
                          \<lparr>count = 1, resetTime = 60000\<rparr> None
                          \<lparr>failures = 1, lastFailure = 0, isOpen = False\<rparr>)"
    by (simp only: trouble_step1)
  from reachable_step [OF this, of "answering 1000" "ask ''c'' ''hello'' (Some ''msg-1'')"]
  have "reachable (trouble bothCached \<lparr>count = 1, resetTime = 60000\<rparr>
                          (Some \<lparr>count = 1, resetTime = 61000\<rparr>)
                          \<lparr>failures = 0, lastFailure = 0, isOpen = False\<rparr>)"
    by (simp only: trouble_step2)
  from reachable_step [OF this, of "failing 290000" "ask ''d'' ''are you there'' None"]
  have "reachable (trouble bothCached \<lparr>count = 1, resetTime = 350000\<rparr>
                          (Some \<lparr>count = 1, resetTime = 61000\<rparr>)
                          \<lparr>failures = 1, lastFailure = 290000, isOpen = False\<rparr>)"
    by (simp add: failing_d)
  from reachable_step [OF this, of "failing 290000" "ask ''d'' ''are you there'' None"]
  have "reachable (trouble bothCached \<lparr>count = 2, resetTime = 350000\<rparr>
                          (Some \<lparr>count = 1, resetTime = 61000\<rparr>)
                          \<lparr>failures = 2, lastFailure = 290000, isOpen = False\<rparr>)"
    by (simp add: failing_d)
  from reachable_step [OF this, of "failing 290000" "ask ''c'' ''are you there'' None"]
  have "reachable (trouble bothCached \<lparr>count = 2, resetTime = 350000\<rparr>
                          (Some \<lparr>count = 1, resetTime = 350000\<rparr>)
                          \<lparr>failures = 3, lastFailure = 290000, isOpen = True\<rparr>)"
    by (simp add: failing_c)
  then show ?case by simp
next
  case (Suc k)
  then have "reachable (trouble bothCached \<lparr>count = 2, resetTime = 350000\<rparr>
                (Some \<lparr>count = 1 + int k, resetTime = 350000\<rparr>)
                \<lparr>failures = 3, lastFailure = 290000, isOpen = True\<rparr>)"
    by simp
  from reachable_step [OF this, of "failing 290000" "ask ''c'' ''are you there'' None"] Suc.prems
  show ?case by (simp add: tripped_c add.commute)
qed

lemma reachable_troubled: "reachable troubled"
  using reachable_trouble [of 14] by (simp add: troubled_trouble)

section \<open>Every response of the service carries success\<close>











lemma processMessage_relayed: "fst (processMessage numberWorld relayed init) = Inr numberReply"
  by code_simp

lemma receivable_numberReply: "receivable (Resolves numberReply)"
proof -
  from processMessage_relayed
  have "processMessage numberWorld relayed init
               = (Inr numberReply, fst (snd (processMessage numberWorld relayed init)),
                  snd (snd (processMessage numberWorld relayed init)))"
    by (metis prod.collapse)
  with reachable.start show ?thesis by (rule receivable.resolves)
qed
section \<open>C10: an empty completion is a missing completion\<close>

text \<open>
  C10. An attempt whose response is ok and whose body has the completion absent or
  equal to the empty string throws \<open>Invalid AI API response: missing completion\<close> in
  both cases; while attempts remain, the loop goes on to the next attempt after the
  backoff, as for any other failure. What \<open>callAIWithRetry\<close> returns, whatever the
  number of retries, is the completion that the body of its last attempt held, and that
  completion passed the test of the code: it is truthy. So a completion that is a
  string is returned only if it is not empty. The test does not ask for a string.
\<close>

theorem empty_completion_is_missing:
  "(fetch e (requestBody msg msgs) n = Answered status statusText (Inr d) \<and> ok status
      \<and> (completion d = None \<or> completion d = Some (JString []))
    \<longrightarrow> attemptOnce e msg msgs n = Inl (Error missingCompletion)
        \<and> (n < mx \<longrightarrow>
             retryLoop e msg msgs mx n lastError ds =
               retryLoop e msg msgs mx (n + 1) (Error missingCompletion) (ds @ [backoff e n])))
   \<and> (callAIWithRetry e msg msgs mx = (Inr r, tr)
        \<longrightarrow> truthy (completion_a r)
          \<and> (isString (completion_a r) \<longrightarrow> completion_a r \<noteq> JString [])
          \<and> (\<exists>status' statusText' d'.
                 fetch e (requestBody msg msgs) (attempts tr)
                   = Answered status' statusText' (Inr d')
               \<and> ok status' \<and> completion d' = Some (completion_a r)))"
proof (intro conjI impI)
  assume h: "fetch e (requestBody msg msgs) n = Answered status statusText (Inr d) \<and> ok status
      \<and> (completion d = None \<or> completion d = Some (JString []))"
  then show a: "attemptOnce e msg msgs n = Inl (Error missingCompletion)"
    by (auto simp: attemptOnce_def)
  assume "n < mx"
  with a show "retryLoop e msg msgs mx n lastError ds =
               retryLoop e msg msgs mx (n + 1) (Error missingCompletion) (ds @ [backoff e n])"
    by (simp add: retryLoop_fail)
next
  assume ret: "callAIWithRetry e msg msgs mx = (Inr r, tr)"
  then show t: "truthy (completion_a r)"
    unfolding callAIWithRetry_def by (rule retryLoop_completion)
  from ret have "attemptOnce e msg msgs (attempts tr) = Inr r"
    unfolding callAIWithRetry_def by (blast dest: retryLoop_returns)
  then show "\<exists>status' statusText' d'.
                 fetch e (requestBody msg msgs) (attempts tr)
                   = Answered status' statusText' (Inr d')
               \<and> ok status' \<and> completion d' = Some (completion_a r)"
    by (rule attemptOnce_body)
  assume "isString (completion_a r)"
  with t show "completion_a r \<noteq> JString []" by (rule truthy_string)
qed

text \<open>The first POST answers an empty completion, the second \<open>hi there\<close>.\<close>

theorem empty_completion_is_missing_witness:
  "fetch (world 1000 emptyThenHi) (requestBody ''hello'' []) 1
     = Answered 200 ''OK'' (Inr \<lparr>completion = Some (JString []), tokensUsed_b = None\<rparr>)
   \<and> ok 200
   \<and> attemptOnce (world 1000 emptyThenHi) ''hello'' [] 1 = Inl (Error missingCompletion)
   \<and> callAIWithRetry (world 1000 emptyThenHi) ''hello'' [] 3
       = (Inr \<lparr>completion_a = JString ''hi there'', model_a = liveModel, tokensUsed_a = JNumber 2\<rparr>,
          \<lparr>attempts = 2, delays = [1250]\<rparr>)
   \<and> truthy (JString ''hi there'') \<and> isString (JString ''hi there'')"
proof -
  have f: "fetch (world 1000 emptyThenHi) (requestBody ''hello'' []) 1
     = Answered 200 ''OK'' (Inr \<lparr>completion = Some (JString []), tokensUsed_b = None\<rparr>)"
    by (simp add: world_def emptyThenHi_def okBody_def)
  have k: "ok 200" by (simp add: ok_def)
  have c: "callAIWithRetry (world 1000 emptyThenHi) ''hello'' [] 3
       = (Inr \<lparr>completion_a = JString ''hi there'', model_a = liveModel, tokensUsed_a = JNumber 2\<rparr>,
          \<lparr>attempts = 2, delays = [1250]\<rparr>)"
    by (simp add: callAIWithRetry_3 attemptOnce_def world_def emptyThenHi_def okBody_def ok_def
        backoff_def Let_def codeUnits_hello)
  from f k c show ?thesis
    using empty_completion_is_missing [of "world 1000 emptyThenHi" "''hello''" "[]" 1 200 "''OK''"
        "\<lparr>completion = Some (JString []), tokensUsed_b = None\<rparr>" 3 Undefined "[]"
        "\<lparr>completion_a = JString ''hi there'', model_a = liveModel, tokensUsed_a = JNumber 2\<rparr>"
        "\<lparr>attempts = 2, delays = [1250]\<rparr>"]
    by simp
qed

text \<open>
  C10 concludes that every value returned has a completion that is a string and not
  empty. Here the upstream answers 200 with the number 42 as its completion. The number
  passes the test for a missing completion; \<open>callAIWithRetry\<close> returns it at the first
  attempt, and \<open>processMessage\<close>, called with the request of a client that sends
  \<open>hello\<close>, hands it on as the content of the assistant's message. The client that
  receives this response fails where it splits the content into words: the user is told
  that the message could not be sent, and the message is taken off the list.
\<close>

theorem empty_completion_is_missing_counterexample:
  "fetch numberWorld (requestBody ''hello'' []) 1
     = Answered 200 ''OK'' (Inr \<lparr>completion = Some (JNumber 42), tokensUsed_b = None\<rparr>)
   \<and> callAIWithRetry numberWorld ''hello'' [] 3
       = (Inr \<lparr>completion_a = JNumber 42, model_a = liveModel, tokensUsed_a = JNumber 2\<rparr>,
          \<lparr>attempts = 1, delays = []\<rparr>)
   \<and> \<not> isString (JNumber 42)
   \<and> sendRequest relaying ''hello'' chatting
       = \<lparr>conversationId_q = conversationId relayed, message_q = JString (message relayed),
          messages_q = messages relayed, idempotencyKey_q = idempotencyKey relayed\<rparr>
   \<and> fst (processMessage numberWorld relayed init) = Inr numberReply
   \<and> content (message_r numberReply) = JNumber 42
   \<and> rpc relaying 0 (sendRequest relaying ''hello'' chatting) = Resolves numberReply
   \<and> fst (sendMessage relaying ''hello'' chatting)
       = Threw ''Failed to send message: fullResponse.split is not a function''
   \<and> messages_c (fst (snd (sendMessage relaying ''hello'' chatting))) = messages_c chatting"
proof -
  have f: "fetch numberWorld (requestBody ''hello'' []) 1
     = Answered 200 ''OK'' (Inr \<lparr>completion = Some (JNumber 42), tokensUsed_b = None\<rparr>)"
    by (simp add: numberWorld_def world_def numberBody_def)
  have c: "callAIWithRetry numberWorld ''hello'' [] 3
       = (Inr \<lparr>completion_a = JNumber 42, model_a = liveModel, tokensUsed_a = JNumber 2\<rparr>,
          \<lparr>attempts = 1, delays = []\<rparr>)"
    by (simp add: callAIWithRetry_3 attemptOnce_def numberWorld_def world_def numberBody_def
        ok_def Let_def codeUnits_hello)
  have q: "sendRequest relaying ''hello'' chatting
       = \<lparr>conversationId_q = conversationId relayed, message_q = JString (message relayed),
          messages_q = messages relayed, idempotencyKey_q = idempotencyKey relayed\<rparr>"
    by code_simp
  note p = processMessage_relayed
  have r: "rpc relaying 0 (sendRequest relaying ''hello'' chatting) = Resolves numberReply"
    by (simp add: relaying_def)
  have t: "trim ''hello'' \<noteq> []" by code_simp
  have s: "\<not> isSending chatting" and o: "connectionStatus chatting \<noteq> Offline"
    by (simp_all add: chatting_def)
  have ok: "success numberReply"
    and num: "\<forall>fullResponse. content (message_r numberReply) \<noteq> JString fullResponse"
    and cont: "content (message_r numberReply) = JNumber 42"
    by (simp_all add: numberReply_def)
  have e: "splitError relaying (JNumber 42) = ''fullResponse.split is not a function''"
    by (simp add: relaying_def)
  have n: "\<not> isNetworkError (Some ''fullResponse.split is not a function'')" by code_simp
  have m: "friendlyError (Some ''fullResponse.split is not a function'')
             = ''Failed to send message: fullResponse.split is not a function''"
    by code_simp
  from sendMessage_unreadable [OF t s o r ok num] n m
  have "fst (sendMessage relaying ''hello'' chatting)
       = Threw ''Failed to send message: fullResponse.split is not a function''"
    "messages_c (fst (snd (sendMessage relaying ''hello'' chatting))) = messages_c chatting"
    by (simp_all add: sendFailed_def cont e adoptConversation_frame)
  with f c q p cont r show ?thesis by simp
qed

section \<open>C2: an upstream failure never escapes processMessage\<close>

text \<open>
  C2. Whatever the state, the input and the world: if the rate-limit check of the call
  passes, \<open>processMessage\<close> returns a response; if it does not pass, the call throws
  the rate-limit error, and that is the only thing it ever throws. When the call has
  tried the upstream and each of the three attempts failed, the response it returns has
  \<open>success = true\<close>, \<open>metadata.model = 'fallback'\<close> and in \<open>metadata.error\<close> the
  message of the last failure.
\<close>

theorem upstream_failure_never_escapes:
  assumes run: "processMessage e inp s = (res, s', tr)"
  shows "(if fst (checkRateLimit (now e RateLimitNow) (conversationId inp) s)
          then \<exists>r. res = Inr r
          else res = Inl (Error rateLimitMessage))
       \<and> (attempts tr \<noteq> 0 \<and> allAttemptsFail e (message inp) (messages inp) \<longrightarrow>
            (\<exists>r reason. res = Inr r \<and> success r \<and> model (metadata r) = ''fallback''
               \<and> attemptOnce e (message inp) (messages inp) 3 = Inl (Error reason)
               \<and> error (metadata r) = Some reason))"
  using run
proof (cases rule: processMessage_cases)
  case limited
  then show ?thesis by (simp add: noCalls_def)
next
  case (replayed s1 key hit)
  then show ?thesis by (simp add: noCalls_def)
next
  case (tripped s1 s2)
  then show ?thesis by (simp add: noCalls_def)
next
  case (upstream s1 s2 s3)
  obtain r s'' tr' where ret: "callUpstream e inp s3 = (Inr r, s'', tr')"
    using callUpstream_returns by blast
  with upstream(4) have res: "res = Inr r" by simp
  from upstream(1) have adm: "fst (checkRateLimit (now e RateLimitNow) (conversationId inp) s)"
    by simp
  have "\<exists>reason. success r \<and> model (metadata r) = ''fallback''
               \<and> attemptOnce e (message inp) (messages inp) 3 = Inl (Error reason)
               \<and> error (metadata r) = Some reason"
    if "allAttemptsFail e (message inp) (messages inp)"
  proof -
    from that obtain reason where
      a: "attemptOnce e (message inp) (messages inp) 3 = Inl (Error reason)" and
      f: "fst (callUpstream e inp s3) =
       Inr (createFallbackResponse (now e TimestampNow) (message inp) (conversationId inp)
              reason (Some (now e ElapsedNow - now e StartTime)))"
      by (rule callUpstream_exhausted)
    from f ret have r: "r = createFallbackResponse (now e TimestampNow) (message inp)
        (conversationId inp) reason (Some (now e ElapsedNow - now e StartTime))"
      by simp
    have "success r \<and> model (metadata r) = ''fallback'' \<and> error (metadata r) = Some reason"
      unfolding r by (simp add: createFallbackResponse_def)
    with a show ?thesis by blast
  qed
  with res adm show ?thesis by simp
qed

text \<open>Three times HTTP 500 on a fresh service.\<close>

theorem upstream_failure_never_escapes_witness:
  "fst (checkRateLimit (now failingWorld RateLimitNow) (conversationId hello) init)
   \<and> attempts (snd (snd (processMessage failingWorld hello init))) = 3
   \<and> allAttemptsFail failingWorld (message hello) (messages hello)
   \<and> (\<exists>r. fst (processMessage failingWorld hello init) = Inr r \<and> success r
          \<and> model (metadata r) = ''fallback''
          \<and> error (metadata r) = Some ''AI API error: 500 Internal Server Error'')"
proof -
  have adm: "fst (checkRateLimit (now failingWorld RateLimitNow) (conversationId hello) init)"
    by code_simp
  have att: "attempts (snd (snd (processMessage failingWorld hello init))) = 3"
    by code_simp
  have fail: "allAttemptsFail failingWorld (message hello) (messages hello)"
    by code_simp
  have last: "attemptOnce failingWorld (message hello) (messages hello) 3
                = Inl (Error ''AI API error: 500 Internal Server Error'')"
    by code_simp
  have run: "processMessage failingWorld hello init
               = (fst (processMessage failingWorld hello init),
                  fst (snd (processMessage failingWorld hello init)),
                  snd (snd (processMessage failingWorld hello init)))"
    by simp
  from upstream_failure_never_escapes [OF run] adm att fail last
  have "\<exists>r. fst (processMessage failingWorld hello init) = Inr r \<and> success r
          \<and> model (metadata r) = ''fallback''
          \<and> error (metadata r) = Some ''AI API error: 500 Internal Server Error''"
    by auto
  with adm att fail show ?thesis by blast
qed

section \<open>C5: the retry budget\<close>

text \<open>
  C5. When each of the three attempts fails, and \<open>Math.random()\<close> stays in its range,
  \<open>callAIWithRetry\<close> (with its default of three retries, as \<open>processMessage\<close> calls
  it) makes exactly three attempts, waits \<open>1000 + j1\<close> ms after the first and
  \<open>2000 + j2\<close> ms after the second, with both jitters from 0 inclusive to 500
  exclusive, waits no more after the third, and throws the error of the third attempt.
  Every call of \<open>processMessage\<close> that tried the upstream recovers from that error: it
  returns, it does not throw, and what it returns is the fallback response:
  \<open>success = true\<close>, \<open>metadata.model = 'fallback'\<close>, \<open>metadata.endpoint = 'fallback'\<close>,
  the message of the error as \<open>metadata.error\<close>, \<open>metadata.cached = false\<close>, and as
  content of the assistant's message the canned reply to the user's message with the
  note on the error.
\<close>

theorem retry_budget:
  assumes fail: "allAttemptsFail e (message inp) (messages inp)"
    and rnd: "randomInRange e"
  shows "\<exists>reason j1 j2.
           0 \<le> j1 \<and> j1 < 500 \<and> 0 \<le> j2 \<and> j2 < 500
         \<and> callAIWithRetry e (message inp) (messages inp) 3
             = (Inl (Error reason), \<lparr>attempts = 3, delays = [1000 + j1, 2000 + j2]\<rparr>)
         \<and> attemptOnce e (message inp) (messages inp) 3 = Inl (Error reason)
         \<and> (\<forall>s res s' tr. processMessage e inp s = (res, s', tr) \<and> attempts tr \<noteq> 0 \<longrightarrow>
               (\<exists>r. res = Inr r
                  \<and> r = createFallbackResponse (now e TimestampNow) (message inp)
                          (conversationId inp) reason
                          (Some (now e ElapsedNow - now e StartTime))
                  \<and> success r
                  \<and> model (metadata r) = ''fallback''
                  \<and> endpoint (metadata r) = ''fallback''
                  \<and> error (metadata r) = Some reason
                  \<and> \<not> cached (metadata r)
                  \<and> processingTime (metadata r) = now e ElapsedNow - now e StartTime
                  \<and> conversationId_r r = conversationId inp
                  \<and> role (message_r r) = Assistant
                  \<and> content (message_r r)
                      = JString (generateEnhancedFallbackResponse (message inp) reason)
                  \<and> timestamp (message_r r) = now e TimestampNow))"
proof -
  from fail obtain reason where
    a: "attemptOnce e (message inp) (messages inp) 3 = Inl (Error reason)" and
    c: "callAIWithRetry e (message inp) (messages inp) 3 =
       (Inl (Error reason), \<lparr>attempts = 3, delays = [backoff e 1, backoff e 2]\<rparr>)"
    by (rule callAIWithRetry_exhausted)
  from backoff_range [OF rnd, of 1] obtain j1 where
    j1: "backoff e 1 = 1000 + j1" "0 \<le> j1" "j1 < 500" by auto
  from backoff_range [OF rnd, of 2] obtain j2 where
    j2: "backoff e 2 = 2000 + j2" "0 \<le> j2" "j2 < 500" by auto
  let ?r = "createFallbackResponse (now e TimestampNow) (message inp) (conversationId inp)
              reason (Some (now e ElapsedNow - now e StartTime))"
  have fields: "success ?r" "model (metadata ?r) = ''fallback''"
    "endpoint (metadata ?r) = ''fallback''" "error (metadata ?r) = Some reason"
    "\<not> cached (metadata ?r)"
    "processingTime (metadata ?r) = now e ElapsedNow - now e StartTime"
    "conversationId_r ?r = conversationId inp" "role (message_r ?r) = Assistant"
    "content (message_r ?r) = JString (generateEnhancedFallbackResponse (message inp) reason)"
    "timestamp (message_r ?r) = now e TimestampNow"
    by (simp_all add: createFallbackResponse_def)
  have rec: "res = Inr ?r"
    if "processMessage e inp s = (res, s', tr)" "attempts tr \<noteq> 0" for s res s' tr
  proof -
    from that fail obtain reason' where
      "attemptOnce e (message inp) (messages inp) 3 = Inl (Error reason')"
      "res = Inr (createFallbackResponse (now e TimestampNow) (message inp) (conversationId inp)
              reason' (Some (now e ElapsedNow - now e StartTime)))"
      by (rule processMessage_exhausted)
    with a show ?thesis by simp
  qed
  from c j1(1) j2(1) have c': "callAIWithRetry e (message inp) (messages inp) 3
             = (Inl (Error reason), \<lparr>attempts = 3, delays = [1000 + j1, 2000 + j2]\<rparr>)"
    by simp
  have rec': "\<forall>s res s' tr. processMessage e inp s = (res, s', tr) \<and> attempts tr \<noteq> 0 \<longrightarrow>
               (\<exists>r. res = Inr r
                  \<and> r = ?r
                  \<and> success r
                  \<and> model (metadata r) = ''fallback''
                  \<and> endpoint (metadata r) = ''fallback''
                  \<and> error (metadata r) = Some reason
                  \<and> \<not> cached (metadata r)
                  \<and> processingTime (metadata r) = now e ElapsedNow - now e StartTime
                  \<and> conversationId_r r = conversationId inp
                  \<and> role (message_r r) = Assistant
                  \<and> content (message_r r)
                      = JString (generateEnhancedFallbackResponse (message inp) reason)
                  \<and> timestamp (message_r r) = now e TimestampNow)"
  proof (intro allI impI)
    fix s :: service and res :: "js_error + response" and s' :: service and tr :: trace
    assume "processMessage e inp s = (res, s', tr) \<and> attempts tr \<noteq> 0"
    then have "res = Inr ?r" using rec by blast
    with fields show "\<exists>r. res = Inr r
                  \<and> r = ?r
                  \<and> success r
                  \<and> model (metadata r) = ''fallback''
                  \<and> endpoint (metadata r) = ''fallback''
                  \<and> error (metadata r) = Some reason
                  \<and> \<not> cached (metadata r)
                  \<and> processingTime (metadata r) = now e ElapsedNow - now e StartTime
                  \<and> conversationId_r r = conversationId inp
                  \<and> role (message_r r) = Assistant
                  \<and> content (message_r r)
                      = JString (generateEnhancedFallbackResponse (message inp) reason)
                  \<and> timestamp (message_r r) = now e TimestampNow"
      by blast
  qed
  from j1(2,3) j2(2,3) c' a rec' show ?thesis by blast
qed

text \<open>
  Three times HTTP 500, every jitter at 250 ms: three attempts, waits of 1250 and 2250
  ms, and a response that is the fallback with the error of the upstream in it.
\<close>

theorem retry_budget_witness:
  "allAttemptsFail failingWorld (message hello) (messages hello)
   \<and> randomInRange failingWorld
   \<and> callAIWithRetry failingWorld (message hello) (messages hello) 3
       = (Inl (Error ''AI API error: 500 Internal Server Error''),
          \<lparr>attempts = 3, delays = [1250, 2250]\<rparr>)
   \<and> attempts (snd (snd (processMessage failingWorld hello init))) = 3
   \<and> (\<exists>r. fst (processMessage failingWorld hello init) = Inr r
          \<and> success r
          \<and> model (metadata r) = ''fallback''
          \<and> error (metadata r) = Some ''AI API error: 500 Internal Server Error''
          \<and> content (message_r r)
              = JString (generateEnhancedFallbackResponse ''hello''
                          ''AI API error: 500 Internal Server Error''))"
proof -
  have fail: "allAttemptsFail failingWorld (message hello) (messages hello)"
    by code_simp
  have rnd: "randomInRange failingWorld"
    by (simp add: randomInRange_def failingWorld_def world_def)
  have call: "callAIWithRetry failingWorld (message hello) (messages hello) 3
       = (Inl (Error ''AI API error: 500 Internal Server Error''),
          \<lparr>attempts = 3, delays = [1250, 2250]\<rparr>)"
    by code_simp
  have att: "attempts (snd (snd (processMessage failingWorld hello init))) = 3"
    by code_simp
  have run: "processMessage failingWorld hello init
               = (fst (processMessage failingWorld hello init),
                  fst (snd (processMessage failingWorld hello init)),
                  snd (snd (processMessage failingWorld hello init)))"
    by simp
  have msg: "message hello = ''hello''" by (simp add: hello_def ask_def)
  from retry_budget [OF fail rnd] obtain reason j1 j2 where
    r: "callAIWithRetry failingWorld (message hello) (messages hello) 3
          = (Inl (Error reason), \<lparr>attempts = 3, delays = [1000 + j1, 2000 + j2]\<rparr>)"
    and rec: "\<forall>s res s' tr. processMessage failingWorld hello s = (res, s', tr) \<and> attempts tr \<noteq> 0 \<longrightarrow>
               (\<exists>r. res = Inr r
                  \<and> r = createFallbackResponse (now failingWorld TimestampNow) (message hello)
                          (conversationId hello) reason
                          (Some (now failingWorld ElapsedNow - now failingWorld StartTime))
                  \<and> success r
                  \<and> model (metadata r) = ''fallback''
                  \<and> endpoint (metadata r) = ''fallback''
                  \<and> error (metadata r) = Some reason
                  \<and> \<not> cached (metadata r)
                  \<and> processingTime (metadata r)
                      = now failingWorld ElapsedNow - now failingWorld StartTime
                  \<and> conversationId_r r = conversationId hello
                  \<and> role (message_r r) = Assistant
                  \<and> content (message_r r)
                      = JString (generateEnhancedFallbackResponse (message hello) reason)
                  \<and> timestamp (message_r r) = now failingWorld TimestampNow)"
    by blast
  from r call have reason: "reason = ''AI API error: 500 Internal Server Error''" by simp
  from att have tried: "attempts (snd (snd (processMessage failingWorld hello init))) \<noteq> 0"
    by simp
  from rec [rule_format, of init "fst (processMessage failingWorld hello init)"
      "fst (snd (processMessage failingWorld hello init))"
      "snd (snd (processMessage failingWorld hello init))"] run tried
  obtain r where "fst (processMessage failingWorld hello init) = Inr r" "success r"
    "model (metadata r) = ''fallback''" "error (metadata r) = Some reason"
    "content (message_r r) = JString (generateEnhancedFallbackResponse (message hello) reason)"
    by blast
  with reason msg have "\<exists>r. fst (processMessage failingWorld hello init) = Inr r
          \<and> success r
          \<and> model (metadata r) = ''fallback''
          \<and> error (metadata r) = Some ''AI API error: 500 Internal Server Error''
          \<and> content (message_r r)
              = JString (generateEnhancedFallbackResponse ''hello''
                          ''AI API error: 500 Internal Server Error'')"
    by simp
  with fail rnd call att show ?thesis by blast
qed

section \<open>C1: fifteen requests per window and conversation\<close>

text \<open>
  C1. Take any state of the service and a call for conversation \<open>cid\<close> that finds no
  window for it, or a window whose reset time has passed: the call opens a window with
  \<open>count = 1\<close> and \<open>resetTime = now + 60000\<close>. Of the calls for \<open>cid\<close> that follow
  while the window lasts, interleaved with any calls for other conversations, exactly
  those after the fifteenth of the window are rejected, so at most fifteen are admitted.
  A rejected call throws the rate-limit error, returns no response, leaves the cache,
  the breaker and the rate-limit map as it found them, and makes no POST.
\<close>

theorem rate_limit_window:
  assumes opens: "rateLimitMap s cid = None
                  \<or> (\<exists>l. rateLimitMap s cid = Some l \<and> resetTime l < now e0 RateLimitNow)"
    and first: "conversationId inp0 = cid"
    and inwin: "\<forall>c \<in> set cs. conversationId (snd c) = cid
                  \<longrightarrow> now (fst c) RateLimitNow \<le> now e0 RateLimitNow + 60000"
  shows "rateLimitMap (after (perform s (e0, inp0))) cid
           = Some \<lparr>count = 1, resetTime = now e0 RateLimitNow + 60000\<rparr>
       \<and> map rejected (ofConversation cid (run s ((e0, inp0) # cs)))
           = map (\<lambda>i. 15 \<le> i)
               [0 ..< length (filter (\<lambda>c. conversationId (snd c) = cid) ((e0, inp0) # cs))]
       \<and> length (filter (\<lambda>r. \<not> rejected r) (ofConversation cid (run s ((e0, inp0) # cs)))) \<le> 15
       \<and> (\<forall>r \<in> set (run s ((e0, inp0) # cs)). rejected r \<longrightarrow>
             outcome r = Inl (Error rateLimitMessage) \<and> after r = before r \<and> made r = noCalls)"
proof -
  let ?s1 = "after (perform s (e0, inp0))"
  let ?l0 = "\<lparr>count = 1, resetTime = now e0 RateLimitNow + 60000\<rparr>"
  let ?n = "length (filter (\<lambda>c. conversationId (snd c) = cid) cs)"
  from checkRateLimit_opens [OF opens] first
  have adm: "\<not> rejected (perform s (e0, inp0))" and l0: "rateLimitMap ?s1 cid = Some ?l0"
    by (simp_all add: perform_rejected_iff perform_rateLimitMap)
  have "\<forall>c \<in> set cs. conversationId (snd c) = cid \<longrightarrow> now (fst c) RateLimitNow \<le> resetTime ?l0"
    using inwin by simp
  from run_window [OF l0 this]
  have rest: "map rejected (ofConversation cid (run ?s1 cs)) = map (\<lambda>i. 15 \<le> Suc i) [0 ..< ?n]"
    by simp
  have pattern: "map rejected (ofConversation cid (run s ((e0, inp0) # cs)))
           = map (\<lambda>i. 15 \<le> i)
               [0 ..< length (filter (\<lambda>c. conversationId (snd c) = cid) ((e0, inp0) # cs))]"
    using adm first rest
    by (simp add: ofConversation_def perform_simps map_upt_Suc del: upt_Suc)
  have "length (filter (\<lambda>r. \<not> rejected r) (ofConversation cid (run s ((e0, inp0) # cs))))
          = length (filter (\<lambda>b. \<not> b) (map rejected (ofConversation cid (run s ((e0, inp0) # cs)))))"
    by (simp add: filter_map comp_def)
  also have "\<dots> \<le> nat 15"
    unfolding pattern using count_admitted [of 15] by simp
  finally have bound:
    "length (filter (\<lambda>r. \<not> rejected r) (ofConversation cid (run s ((e0, inp0) # cs)))) \<le> 15"
    by simp
  have frame: "\<forall>r \<in> set (run s ((e0, inp0) # cs)). rejected r \<longrightarrow>
             outcome r = Inl (Error rateLimitMessage) \<and> after r = before r \<and> made r = noCalls"
    using run_rejected_frame by blast
  from l0 pattern bound frame show ?thesis by blast
qed

text \<open>Seventeen calls in the same millisecond on a fresh service.\<close>

theorem rate_limit_window_witness:
  "rateLimitMap init ''c'' = None
   \<and> map rejected (run init (replicate 17 (friendlyWorld, hello)))
       = replicate 15 False @ [True, True]
   \<and> outcome (run init (replicate 17 (friendlyWorld, hello)) ! 15) = Inl (Error rateLimitMessage)
   \<and> made (run init (replicate 17 (friendlyWorld, hello)) ! 15) = noCalls"
proof -
  let ?c = "(friendlyWorld, hello)"
  have none: "rateLimitMap init ''c'' = None" by (simp add: init_def)
  have cid: "conversationId hello = ''c''" by (simp add: hello_def ask_def)
  have inwin: "\<forall>c \<in> set (replicate 16 ?c). conversationId (snd c) = ''c''
                  \<longrightarrow> now (fst c) RateLimitNow \<le> now friendlyWorld RateLimitNow + 60000"
    by simp
  have r17: "?c # replicate 16 ?c = replicate 17 ?c"
    by (simp add: numeral_Bit1 numeral_Bit0)
  note inst = rate_limit_window [of init "''c''" friendlyWorld hello "replicate 16 ?c",
      unfolded r17, OF disjI1 [OF none] cid inwin]
  have all: "ofConversation ''c'' (run init (replicate 17 ?c)) = run init (replicate 17 ?c)"
    by (rule ofConversation_all) (simp add: cid)
  have len: "length (filter (\<lambda>c. conversationId (snd c) = ''c'') (replicate 17 ?c)) = 17"
    by (simp add: cid)
  have pat: "map (\<lambda>i. 15 \<le> i) [0 ..< 17] = replicate 15 False @ [True, True]"
    by code_simp
  from inst have p: "map rejected (run init (replicate 17 ?c)) = replicate 15 False @ [True, True]"
    unfolding all len pat by blast
  have len17: "length (run init (replicate 17 ?c)) = 17" by (simp add: length_run)
  have "rejected (run init (replicate 17 ?c) ! 15) = (map rejected (run init (replicate 17 ?c)) ! 15)"
    by (simp add: len17)
  also have "\<dots>" unfolding p by (simp add: nth_append)
  finally have rej: "rejected (run init (replicate 17 ?c) ! 15)" .
  have "run init (replicate 17 ?c) ! 15 \<in> set (run init (replicate 17 ?c))"
    by (rule nth_mem) (simp add: len17)
  with inst rej have "outcome (run init (replicate 17 ?c) ! 15) = Inl (Error rateLimitMessage)
      \<and> made (run init (replicate 17 ?c) ! 15) = noCalls"
    by blast
  with none p show ?thesis by blast
qed

section \<open>C9: the flag cached is never set\<close>

text \<open>
  C9. In every state that the service can reach, whatever \<open>processMessage\<close> returns,
  freshly built from the upstream, synthesized as a fallback or taken from the
  idempotency cache, has \<open>metadata.cached = false\<close>, and so has every response that
  the cache holds afterwards: an entry is stored with the flag it was built with and
  read back as it is.
\<close>

theorem cached_flag_never_set:
  assumes "reachable s" and "processMessage e inp s = (Inr r, s', tr)"
  shows "cached (metadata r) = False
         \<and> (\<forall>c \<in> ran (requestCache s'). cached (metadata (data c)) = False)"
proof -
  from assms(1) have "cacheUnflagged s" by (rule reachable_unflagged)
  from processMessage_unflagged [OF this assms(2)] show ?thesis
    by (simp add: cacheUnflagged_def)
qed


text \<open>The same keyed message twice: the second reply comes from the cache, unflagged.\<close>

theorem cached_flag_never_set_witness:
  "reachable afterKeyed
   \<and> snd (snd (processMessage friendlyWorld keyed afterKeyed)) = noCalls
   \<and> (\<exists>r. fst (processMessage friendlyWorld keyed afterKeyed) = Inr r
          \<and> content (message_r r) = JString ''hi there'' \<and> cached (metadata r) = False)"
proof -
  have reach: "reachable afterKeyed"
    unfolding afterKeyed_def
    by (rule reachable.call [OF reachable.start, of friendlyWorld keyed
          "fst (processMessage friendlyWorld keyed init)" _
          "snd (snd (processMessage friendlyWorld keyed init))"]) simp
  have replay: "snd (snd (processMessage friendlyWorld keyed afterKeyed)) = noCalls"
    by code_simp
  have said: "content (message_r (projr (fst (processMessage friendlyWorld keyed afterKeyed))))
                = JString ''hi there''"
    by code_simp
  have ret: "\<not> isl (fst (processMessage friendlyWorld keyed afterKeyed))"
    by code_simp
  then obtain r where r: "fst (processMessage friendlyWorld keyed afterKeyed) = Inr r"
    by (cases "fst (processMessage friendlyWorld keyed afterKeyed)") simp_all
  then have run: "processMessage friendlyWorld keyed afterKeyed
               = (Inr r, fst (snd (processMessage friendlyWorld keyed afterKeyed)),
                  snd (snd (processMessage friendlyWorld keyed afterKeyed)))"
    by (metis prod.collapse)
  from cached_flag_never_set [OF reach run] have "cached (metadata r) = False" by blast
  moreover from said r have "content (message_r r) = JString ''hi there''" by simp
  ultimately show ?thesis using reach replay r by blast
qed

section \<open>C3: replay from the idempotency cache\<close>

text \<open>
  C3, as the code has it. Take a call that the rate limiter admits and that supplies a
  key that is not empty, and a cache that holds an entry for the key. If the entry has
  not expired, the call returns the stored response as it is, leaves the cache and the
  breaker untouched and makes no POST; a second such call, made while the entry is
  still live, returns the same response. If the entry has expired, it is removed and
  the call goes on to the circuit-breaker check: when the breaker lets it through, the
  call makes a fresh upstream attempt, and when the breaker is open, the call returns
  the breaker's fallback without any POST.
\<close>

theorem idempotent_replay:
  assumes adm: "checkRateLimit (now e RateLimitNow) (conversationId inp) s = (True, s1)"
    and key: "givenKey (idempotencyKey inp) = Some key"
    and entry: "requestCache s key = Some c"
  shows "(now e IdempotencyNow < expiresAt c \<longrightarrow>
            processMessage e inp s = (Inr (data c), s1, noCalls)
          \<and> requestCache s1 = requestCache s \<and> circuitBreaker s1 = circuitBreaker s
          \<and> (\<forall>e2 inp2 s2.
                givenKey (idempotencyKey inp2) = Some key
              \<and> checkRateLimit (now e2 RateLimitNow) (conversationId inp2) s1 = (True, s2)
              \<and> now e2 IdempotencyNow < expiresAt c
              \<longrightarrow> fst (processMessage e2 inp2 s1) = fst (processMessage e inp s)))
       \<and> (expiresAt c \<le> now e IdempotencyNow \<longrightarrow>
            (\<exists>pass s3.
                checkCircuitBreaker (now e BreakerNow) ''ai-api''
                  (s1\<lparr>requestCache := (requestCache s1)(key := None)\<rparr>) = (pass, s3)
              \<and> requestCache s3 key = None
              \<and> (pass \<longrightarrow> processMessage e inp s = callUpstream e inp s3
                          \<and> 1 \<le> attempts (snd (snd (processMessage e inp s))))
              \<and> (\<not> pass \<longrightarrow> processMessage e inp s =
                    (Inr (createFallbackResponse (now e TimestampNow) (message inp)
                            (conversationId inp) ''Circuit breaker open'' None), s3, noCalls))))"
proof (intro conjI impI)
  assume live: "now e IdempotencyNow < expiresAt c"
  show first: "processMessage e inp s = (Inr (data c), s1, noCalls)"
    using adm key entry live by (rule processMessage_replay)
  from adm show frame: "requestCache s1 = requestCache s" "circuitBreaker s1 = circuitBreaker s"
    by (auto dest: checkRateLimit_frame)
  show "\<forall>e2 inp2 s2.
                givenKey (idempotencyKey inp2) = Some key
              \<and> checkRateLimit (now e2 RateLimitNow) (conversationId inp2) s1 = (True, s2)
              \<and> now e2 IdempotencyNow < expiresAt c
              \<longrightarrow> fst (processMessage e2 inp2 s1) = fst (processMessage e inp s)"
  proof (intro allI impI, elim conjE)
    fix e2 :: env and inp2 :: input and s2 :: service
    assume "givenKey (idempotencyKey inp2) = Some key"
      "checkRateLimit (now e2 RateLimitNow) (conversationId inp2) s1 = (True, s2)"
      "now e2 IdempotencyNow < expiresAt c"
    moreover from entry frame have "requestCache s1 key = Some c" by simp
    ultimately have "processMessage e2 inp2 s1 = (Inr (data c), s2, noCalls)"
      by (intro processMessage_replay)
    with first show "fst (processMessage e2 inp2 s1) = fst (processMessage e inp s)" by simp
  qed
next
  assume dead: "expiresAt c \<le> now e IdempotencyNow"
  let ?s2 = "s1\<lparr>requestCache := (requestCache s1)(key := None)\<rparr>"
  obtain pass s3 where cb: "checkCircuitBreaker (now e BreakerNow) ''ai-api'' ?s2 = (pass, s3)"
    by (cases "checkCircuitBreaker (now e BreakerNow) ''ai-api'' ?s2")
  from cb have gone: "requestCache s3 key = None"
    by (auto dest: checkCircuitBreaker_frame)
  note pm = processMessage_expired [OF adm key entry dead cb]
  have "pass \<longrightarrow> processMessage e inp s = callUpstream e inp s3
                \<and> 1 \<le> attempts (snd (snd (processMessage e inp s)))"
    using pm callUpstream_attempts [of e inp s3] by simp
  moreover have "\<not> pass \<longrightarrow> processMessage e inp s =
                    (Inr (createFallbackResponse (now e TimestampNow) (message inp)
                            (conversationId inp) ''Circuit breaker open'' None), s3, noCalls)"
    using pm by simp
  ultimately show "\<exists>pass s3.
                checkCircuitBreaker (now e BreakerNow) ''ai-api'' ?s2 = (pass, s3)
              \<and> requestCache s3 key = None
              \<and> (pass \<longrightarrow> processMessage e inp s = callUpstream e inp s3
                          \<and> 1 \<le> attempts (snd (snd (processMessage e inp s))))
              \<and> (\<not> pass \<longrightarrow> processMessage e inp s =
                    (Inr (createFallbackResponse (now e TimestampNow) (message inp)
                            (conversationId inp) ''Circuit breaker open'' None), s3, noCalls))"
    using cb gone by blast
qed


text \<open>On the service in trouble: a live entry replayed, and an expired one after the cooldown.\<close>

theorem idempotent_replay_witness:
  "fst (checkRateLimit (now recovered RateLimitNow) ''d'' troubled)
   \<and> fst (processMessage recovered (ask ''d'' ''hello'' (Some ''msg-1'')) troubled) = Inr storedReply
   \<and> snd (snd (processMessage recovered (ask ''d'' ''hello'' (Some ''msg-1'')) troubled)) = noCalls
   \<and> fst (checkRateLimit (now cooled RateLimitNow) ''d'' troubled)
   \<and> 1 \<le> attempts (snd (snd (processMessage cooled (ask ''d'' ''hello'' (Some ''msg-2'')) troubled)))"
proof -
  let ?inp1 = "ask ''d'' ''hello'' (Some ''msg-1'')" and ?inp2 = "ask ''d'' ''hello'' (Some ''msg-2'')"
  let ?s1 = "snd (checkRateLimit (now recovered RateLimitNow) (conversationId ?inp1) troubled)"
  let ?s2 = "snd (checkRateLimit (now cooled RateLimitNow) (conversationId ?inp2) troubled)"
  let ?c1 = "\<lparr>data = storedReply, expiresAt = 86401000\<rparr>"
  let ?c2 = "\<lparr>data = createFallbackResponse 0 ''hello'' ''d''
                       ''AI API error: 500 Internal Server Error'' (Some 0),
             expiresAt = 300000\<rparr>"
  have a1: "fst (checkRateLimit (now recovered RateLimitNow) ''d'' troubled)" by code_simp
  then have adm1: "checkRateLimit (now recovered RateLimitNow) (conversationId ?inp1) troubled
                     = (True, ?s1)"
    by (simp add: ask_def prod_eq_iff)
  have a2: "fst (checkRateLimit (now cooled RateLimitNow) ''d'' troubled)" by code_simp
  then have adm2: "checkRateLimit (now cooled RateLimitNow) (conversationId ?inp2) troubled
                     = (True, ?s2)"
    by (simp add: ask_def prod_eq_iff)
  have k1: "givenKey (idempotencyKey ?inp1) = Some ''msg-1''"
    and k2: "givenKey (idempotencyKey ?inp2) = Some ''msg-2''"
    by (simp_all add: givenKey_def ask_def)
  have c1: "requestCache troubled ''msg-1'' = Some ?c1"
    and c2: "requestCache troubled ''msg-2'' = Some ?c2"
    by (simp_all add: troubled_def)
  have live: "now recovered IdempotencyNow < expiresAt ?c1"
    by (simp add: recovered_def world_def)
  have dead: "expiresAt ?c2 \<le> now cooled IdempotencyNow"
    by (simp add: cooled_def world_def)
  from idempotent_replay [OF adm1 k1 c1] live
  have "processMessage recovered ?inp1 troubled = (Inr (data ?c1), ?s1, noCalls)" by blast
  then have r1: "fst (processMessage recovered ?inp1 troubled) = Inr storedReply"
    "snd (snd (processMessage recovered ?inp1 troubled)) = noCalls"
    by simp_all
  have through: "fst (checkCircuitBreaker (now cooled BreakerNow) ''ai-api''
                   (?s2\<lparr>requestCache := (requestCache ?s2)(''msg-2'' := None)\<rparr>))"
    by code_simp
  from idempotent_replay [OF adm2 k2 c2] dead obtain pass s3 where
    "checkCircuitBreaker (now cooled BreakerNow) ''ai-api''
       (?s2\<lparr>requestCache := (requestCache ?s2)(''msg-2'' := None)\<rparr>) = (pass, s3)"
    "pass \<longrightarrow> 1 \<le> attempts (snd (snd (processMessage cooled ?inp2 troubled)))"
    by blast
  with through have "1 \<le> attempts (snd (snd (processMessage cooled ?inp2 troubled)))" by simp
  with a1 a2 r1 show ?thesis by blast
qed

text \<open>
  The claim as it was written promises the stored response to every call with a key and
  a live entry, and a fresh upstream attempt to every call whose entry has expired. On
  the service in trouble, a state that the service can reach, conversation \<open>c\<close> has
  a live entry for \<open>msg-1\<close> and is thrown the rate-limit error; conversation \<open>d\<close> has an expired entry for \<open>msg-2\<close>,
  loses it, and is answered by the open breaker with no POST made.
\<close>

theorem idempotent_replay_counterexample:
  "reachable troubled
   \<and> map_option expiresAt (requestCache troubled ''msg-1'') = Some 86401000
   \<and> now recovered IdempotencyNow = 300500
   \<and> fst (processMessage recovered (ask ''c'' ''hello'' (Some ''msg-1'')) troubled)
       = Inl (Error rateLimitMessage)
   \<and> map_option expiresAt (requestCache troubled ''msg-2'') = Some 300000
   \<and> requestCache (fst (snd (processMessage recovered (ask ''d'' ''hello'' (Some ''msg-2'')) troubled)))
        ''msg-2'' = None
   \<and> attempts (snd (snd (processMessage recovered (ask ''d'' ''hello'' (Some ''msg-2'')) troubled))) = 0
   \<and> map_sum id (\<lambda>r. error (metadata r))
        (fst (processMessage recovered (ask ''d'' ''hello'' (Some ''msg-2'')) troubled))
       = Inr (Some ''Circuit breaker open'')"
proof -
  have "map_option expiresAt (requestCache troubled ''msg-1'') = Some 86401000
   \<and> now recovered IdempotencyNow = 300500
   \<and> fst (processMessage recovered (ask ''c'' ''hello'' (Some ''msg-1'')) troubled)
       = Inl (Error rateLimitMessage)
   \<and> map_option expiresAt (requestCache troubled ''msg-2'') = Some 300000
   \<and> requestCache (fst (snd (processMessage recovered (ask ''d'' ''hello'' (Some ''msg-2'')) troubled)))
        ''msg-2'' = None
   \<and> attempts (snd (snd (processMessage recovered (ask ''d'' ''hello'' (Some ''msg-2'')) troubled))) = 0
   \<and> map_sum id (\<lambda>r. error (metadata r))
        (fst (processMessage recovered (ask ''d'' ''hello'' (Some ''msg-2'')) troubled))
       = Inr (Some ''Circuit breaker open'')"
    by code_simp
  with reachable_troubled show ?thesis by (rule conjI)
qed

section \<open>C4: the circuit breaker\<close>

text \<open>
  C4, as the code has it. In every state that the service can reach, a breaker that is
  open has counted at least three failures. Take a call that the rate limiter admits
  and that finds no live entry for its idempotency key. While the breaker is open and
  at most 30 seconds have passed since its last failure, the call returns the
  synthesized fallback (\<open>success = true\<close>, \<open>model = 'fallback'\<close>), makes no POST and
  leaves the breaker as it is. Once more than 30 seconds have passed, the breaker check
  of the call clears the breaker (\<open>isOpen = false\<close>, \<open>failures = 0\<close>), whether or not
  any call has succeeded in between, and the call goes on to the upstream.
\<close>

theorem breaker_behaviour:
  assumes reach: "reachable s"
    and br: "circuitBreaker s ''ai-api'' = Some b"
    and adm: "checkRateLimit (now e RateLimitNow) (conversationId inp) s = (True, s1)"
    and miss: "(case givenKey (idempotencyKey inp) of None \<Rightarrow> (None, s1)
                | Some key \<Rightarrow> checkIdempotency (now e IdempotencyNow) key s1) = (None, s2)"
  shows "(isOpen b \<longrightarrow> 3 \<le> failures b)
       \<and> (isOpen b \<and> now e BreakerNow - lastFailure b \<le> 30000 \<longrightarrow>
            (\<exists>r. processMessage e inp s = (Inr r, s2, noCalls)
                \<and> success r \<and> model (metadata r) = ''fallback''
                \<and> error (metadata r) = Some ''Circuit breaker open'')
            \<and> circuitBreaker s2 = circuitBreaker s)
       \<and> (isOpen b \<and> 30000 < now e BreakerNow - lastFailure b \<longrightarrow>
            (\<exists>s3. circuitBreaker s3 ''ai-api'' = Some (b\<lparr>isOpen := False, failures := 0\<rparr>)
                \<and> processMessage e inp s = callUpstream e inp s3
                \<and> 1 \<le> attempts (snd (snd (processMessage e inp s)))))"
proof (intro conjI impI)
  assume "isOpen b"
  moreover from reach have "breakerSound s" by (rule reachable_breakerSound)
  ultimately show "3 \<le> failures b" using br by (auto simp: breakerSound_def ran_def)
next
  assume h: "isOpen b \<and> now e BreakerNow - lastFailure b \<le> 30000"
  then have o: "isOpen b" and t: "now e BreakerNow - lastFailure b \<le> 30000" by simp_all
  let ?r = "createFallbackResponse (now e TimestampNow) (message inp) (conversationId inp)
              ''Circuit breaker open'' None"
  have "processMessage e inp s = (Inr ?r, s2, noCalls)"
    using adm miss br o t by (rule processMessage_tripped(1))
  moreover have "success ?r \<and> model (metadata ?r) = ''fallback''
                \<and> error (metadata ?r) = Some ''Circuit breaker open''"
    by (simp add: createFallbackResponse_def)
  ultimately show "\<exists>r. processMessage e inp s = (Inr r, s2, noCalls)
                \<and> success r \<and> model (metadata r) = ''fallback''
                \<and> error (metadata r) = Some ''Circuit breaker open''"
    by blast
  show "circuitBreaker s2 = circuitBreaker s"
    using adm miss br o t by (rule processMessage_tripped(2))
next
  assume h: "isOpen b \<and> 30000 < now e BreakerNow - lastFailure b"
  then have o: "isOpen b" and t: "30000 < now e BreakerNow - lastFailure b" by simp_all
  let ?s3 = "s2\<lparr>circuitBreaker :=
                   (circuitBreaker s2)(''ai-api'' \<mapsto> b\<lparr>isOpen := False, failures := 0\<rparr>)\<rparr>"
  have pm: "processMessage e inp s = callUpstream e inp ?s3"
    using adm miss br o t by (rule processMessage_cooled)
  moreover have "circuitBreaker ?s3 ''ai-api'' = Some (b\<lparr>isOpen := False, failures := 0\<rparr>)"
    by simp
  moreover have "1 \<le> attempts (snd (snd (processMessage e inp s)))"
    unfolding pm by (rule callUpstream_attempts)
  ultimately show "\<exists>s3. circuitBreaker s3 ''ai-api'' = Some (b\<lparr>isOpen := False, failures := 0\<rparr>)
                \<and> processMessage e inp s = callUpstream e inp s3
                \<and> 1 \<le> attempts (snd (snd (processMessage e inp s)))"
    by blast
qed

text \<open>After three failures in a row: a call 19 seconds later, and one 39 seconds later.\<close>

theorem breaker_behaviour_witness:
  "reachable (failedTimes 3)
   \<and> circuitBreaker (failedTimes 3) ''ai-api''
       = Some \<lparr>failures = 3, lastFailure = 1000, isOpen = True\<rparr>
   \<and> fst (checkRateLimit (now soon RateLimitNow) (conversationId hello) (failedTimes 3))
   \<and> snd (snd (processMessage soon hello (failedTimes 3))) = noCalls
   \<and> map_sum id (\<lambda>r. model (metadata r)) (fst (processMessage soon hello (failedTimes 3)))
       = Inr ''fallback''
   \<and> fst (checkRateLimit (now later RateLimitNow) (conversationId hello) (failedTimes 3))
   \<and> 1 \<le> attempts (snd (snd (processMessage later hello (failedTimes 3))))"
proof -
  let ?b = "\<lparr>failures = 3, lastFailure = 1000, isOpen = True\<rparr>"
  let ?s1 = "snd (checkRateLimit (now soon RateLimitNow) (conversationId hello) (failedTimes 3))"
  let ?s2 = "snd (checkRateLimit (now later RateLimitNow) (conversationId hello) (failedTimes 3))"
  have br: "circuitBreaker (failedTimes 3) ''ai-api'' = Some ?b"
    by (simp add: failedTimes_def)
  have a1: "fst (checkRateLimit (now soon RateLimitNow) (conversationId hello) (failedTimes 3))"
    by code_simp
  then have adm1: "checkRateLimit (now soon RateLimitNow) (conversationId hello) (failedTimes 3)
                     = (True, ?s1)"
    by (simp add: prod_eq_iff)
  have a2: "fst (checkRateLimit (now later RateLimitNow) (conversationId hello) (failedTimes 3))"
    by code_simp
  then have adm2: "checkRateLimit (now later RateLimitNow) (conversationId hello) (failedTimes 3)
                     = (True, ?s2)"
    by (simp add: prod_eq_iff)
  have miss1: "(case givenKey (idempotencyKey hello) of None \<Rightarrow> (None, ?s1)
                | Some key \<Rightarrow> checkIdempotency (now soon IdempotencyNow) key ?s1) = (None, ?s1)"
    and miss2: "(case givenKey (idempotencyKey hello) of None \<Rightarrow> (None, ?s2)
                | Some key \<Rightarrow> checkIdempotency (now later IdempotencyNow) key ?s2) = (None, ?s2)"
    by (simp_all add: givenKey_def hello_def ask_def)
  have early: "isOpen ?b \<and> now soon BreakerNow - lastFailure ?b \<le> 30000"
    by (simp add: soon_def world_def)
  have late: "isOpen ?b \<and> 30000 < now later BreakerNow - lastFailure ?b"
    by (simp add: later_def world_def)
  from breaker_behaviour [OF reachable_failedTimes br adm1 miss1] early
  obtain r where "processMessage soon hello (failedTimes 3) = (Inr r, ?s1, noCalls)"
    "model (metadata r) = ''fallback''"
    by blast
  then have r1: "snd (snd (processMessage soon hello (failedTimes 3))) = noCalls"
    "map_sum id (\<lambda>r. model (metadata r)) (fst (processMessage soon hello (failedTimes 3)))
       = Inr ''fallback''"
    by simp_all
  from breaker_behaviour [OF reachable_failedTimes br adm2 miss2] late
  have r2: "1 \<le> attempts (snd (snd (processMessage later hello (failedTimes 3))))"
    by blast
  from reachable_failedTimes br a1 r1 a2 r2 show ?thesis by blast
qed

text \<open>
  The claim as it was written promises the fallback to every call made while the
  breaker is open. On the service in trouble, a state that the service can reach,
  ten seconds after the last failure, conversation \<open>c\<close> is over its limit and is thrown the rate-limit error, and the
  replay of \<open>msg-1\<close> is answered from the cache with the live reply.
\<close>

theorem breaker_behaviour_counterexample:
  "reachable troubled
   \<and> circuitBreaker troubled ''ai-api'' = Some \<lparr>failures = 3, lastFailure = 290000, isOpen = True\<rparr>
   \<and> now recovered BreakerNow = 300500
   \<and> fst (processMessage recovered (ask ''c'' ''hello'' None) troubled)
       = Inl (Error rateLimitMessage)
   \<and> fst (processMessage recovered (ask ''d'' ''hello'' (Some ''msg-1'')) troubled)
       = Inr storedReply
   \<and> model (metadata storedReply) = ''claude-3-5-sonnet''"
proof -
  have "circuitBreaker troubled ''ai-api'' = Some \<lparr>failures = 3, lastFailure = 290000, isOpen = True\<rparr>
   \<and> now recovered BreakerNow = 300500
   \<and> fst (processMessage recovered (ask ''c'' ''hello'' None) troubled)
       = Inl (Error rateLimitMessage)
   \<and> fst (processMessage recovered (ask ''d'' ''hello'' (Some ''msg-1'')) troubled)
       = Inr storedReply
   \<and> model (metadata storedReply) = ''claude-3-5-sonnet''"
    by code_simp
  with reachable_troubled show ?thesis by (rule conjI)
qed

section \<open>C8: the reply of a successful upstream call\<close>

text \<open>
  C8, as the code has it. Take a call that the rate limiter admits, that finds no live
  entry for its idempotency key and that the breaker lets through, and let the upstream
  call succeed with a completion, a string or any other value that passes the test of
  the code. The response returned has \<open>success = true\<close>, the completion as
  \<open>message.content\<close>, \<open>message.role = 'assistant'\<close>, the live model id
  (which is not \<open>'fallback'\<close>) as \<open>metadata.model\<close> and \<open>metadata.cached = false\<close>; the
  breaker has \<open>failures = 0\<close> and \<open>isOpen = false\<close> afterwards; and if the call gave a
  key that is not empty, the cache holds the response under that key with an expiry 24
  hours after the time of the write. With no key, or with the empty string as key,
  nothing is written to the cache.
\<close>

theorem live_reply:
  assumes adm: "checkRateLimit (now e RateLimitNow) (conversationId inp) s = (True, s1)"
    and miss: "(case givenKey (idempotencyKey inp) of None \<Rightarrow> (None, s1)
                | Some key \<Rightarrow> checkIdempotency (now e IdempotencyNow) key s1) = (None, s2)"
    and pass: "checkCircuitBreaker (now e BreakerNow) ''ai-api'' s2 = (True, s3)"
    and up: "callAIWithRetry e (message inp) (messages inp) 3 = (Inr result, tr)"
  shows "\<exists>r s' b.
           truthy (completion_a result)
         \<and> processMessage e inp s = (Inr r, s', tr)
         \<and> success r \<and> content (message_r r) = completion_a result
         \<and> role (message_r r) = Assistant
         \<and> model (metadata r) = liveModel \<and> liveModel \<noteq> ''fallback''
         \<and> cached (metadata r) = False
         \<and> circuitBreaker s' ''ai-api'' = Some b \<and> failures b = 0 \<and> isOpen b = False
         \<and> (case givenKey (idempotencyKey inp) of
               Some key \<Rightarrow> requestCache s' key
                             = Some \<lparr>data = r, expiresAt = now e CacheNow + 24 * 60 * 60 * 1000\<rparr>
             | None \<Rightarrow> requestCache s' = requestCache s2)"
proof -
  from up have c: "truthy (completion_a result)"
    unfolding callAIWithRetry_def by (rule retryLoop_completion)
  from up have m: "model_a result = liveModel" by (rule callAIWithRetry_model)
  let ?r = "successResponse e inp result"
  let ?s4 = "recordSuccess ''ai-api'' s3"
  let ?s' = "case givenKey (idempotencyKey inp) of None \<Rightarrow> ?s4
             | Some key \<Rightarrow> setIdempotencyCache (now e CacheNow) key ?r defaultTtl ?s4"
  from up have cu: "callUpstream e inp s3 = (Inr ?r, ?s', tr)"
    by (simp add: callUpstream_def Let_def)
  with adm miss pass have pm: "processMessage e inp s = (Inr ?r, ?s', tr)"
    by (simp add: processMessage_def)
  from c m have shape: "success ?r" "content (message_r ?r) = completion_a result"
    "role (message_r ?r) = Assistant"
    "model (metadata ?r) = liveModel" "cached (metadata ?r) = False"
    by (simp_all add: successResponse_def liveModel_def)
  have live: "liveModel \<noteq> ''fallback''" by (simp add: liveModel_def)
  from pass obtain b0 where "circuitBreaker s3 ''ai-api'' = Some b0"
    by (auto dest: circuitBreaker_checked)
  then have "circuitBreaker ?s4 ''ai-api'' = Some (b0\<lparr>failures := 0, isOpen := False\<rparr>)"
    by (rule recordSuccess_resets)
  then have br: "circuitBreaker ?s' ''ai-api'' = Some (b0\<lparr>failures := 0, isOpen := False\<rparr>)"
    by (simp add: setIdempotencyCache_frame split: option.splits)
  from pass have "requestCache s3 = requestCache s2" by (auto dest: checkCircuitBreaker_frame)
  then have store: "case givenKey (idempotencyKey inp) of
               Some key \<Rightarrow> requestCache ?s' key
                             = Some \<lparr>data = ?r, expiresAt = now e CacheNow + 24 * 60 * 60 * 1000\<rparr>
             | None \<Rightarrow> requestCache ?s' = requestCache s2"
    by (simp add: setIdempotencyCache_def defaultTtl_def recordSuccess_frame split: option.splits)
  show ?thesis
    by (rule exI [of _ ?r], rule exI [of _ ?s'],
        rule exI [of _ "b0\<lparr>failures := 0, isOpen := False\<rparr>"])
       (use c pm shape live br store in simp)
qed


text \<open>The keyed message on a fresh service, the upstream answering \<open>hi there\<close>.\<close>

theorem live_reply_witness:
  "fst (checkRateLimit (now friendlyWorld RateLimitNow) (conversationId keyed) init)
   \<and> fst (callAIWithRetry friendlyWorld (message keyed) (messages keyed) 3)
       = Inr \<lparr>completion_a = JString ''hi there'', model_a = liveModel, tokensUsed_a = JNumber 2\<rparr>
   \<and> map_sum id (\<lambda>r. content (message_r r)) (fst (processMessage friendlyWorld keyed init))
       = Inr (JString ''hi there'')
   \<and> map_sum id (\<lambda>r. model (metadata r)) (fst (processMessage friendlyWorld keyed init))
       = Inr ''claude-3-5-sonnet''
   \<and> map_option expiresAt (requestCache afterKeyed ''msg-1'') = Some 86401000
   \<and> map_option isOpen (circuitBreaker afterKeyed ''ai-api'') = Some False"
proof -
  let ?s1 = "snd (checkRateLimit (now friendlyWorld RateLimitNow) (conversationId keyed) init)"
  let ?res = "\<lparr>completion_a = JString ''hi there'', model_a = liveModel, tokensUsed_a = JNumber 2\<rparr>"
  let ?tr = "\<lparr>attempts = 1, delays = []\<rparr>"
  let ?s3 = "snd (checkCircuitBreaker (now friendlyWorld BreakerNow) ''ai-api'' ?s1)"
  have a: "fst (checkRateLimit (now friendlyWorld RateLimitNow) (conversationId keyed) init)"
    by code_simp
  then have adm: "checkRateLimit (now friendlyWorld RateLimitNow) (conversationId keyed) init
                    = (True, ?s1)"
    by (simp add: prod_eq_iff)
  have k: "givenKey (idempotencyKey keyed) = Some ''msg-1''"
    by (simp add: givenKey_def keyed_def ask_def)
  have "requestCache ?s1 ''msg-1'' = None"
    using adm by (auto dest!: checkRateLimit_frame simp: init_def)
  with k have miss: "(case givenKey (idempotencyKey keyed) of None \<Rightarrow> (None, ?s1)
                | Some key \<Rightarrow> checkIdempotency (now friendlyWorld IdempotencyNow) key ?s1)
                = (None, ?s1)"
    by (simp add: checkIdempotency_def)
  have "circuitBreaker ?s1 ''ai-api'' = None"
    using adm by (auto dest!: checkRateLimit_frame simp: init_def)
  then have pass: "checkCircuitBreaker (now friendlyWorld BreakerNow) ''ai-api'' ?s1 = (True, ?s3)"
    by (simp add: checkCircuitBreaker_def)
  have up: "callAIWithRetry friendlyWorld (message keyed) (messages keyed) 3 = (Inr ?res, ?tr)"
    by code_simp
  have t: "now friendlyWorld CacheNow = 1000" by (simp add: friendlyWorld_def world_def)
  from live_reply [OF adm miss pass up] k t obtain r s' b where
    pm: "processMessage friendlyWorld keyed init = (Inr r, s', ?tr)"
    and r: "content (message_r r) = JString ''hi there''" "model (metadata r) = liveModel"
    and b: "circuitBreaker s' ''ai-api'' = Some b" "isOpen b = False"
    and c: "requestCache s' ''msg-1'' = Some \<lparr>data = r, expiresAt = 1000 + 24 * 60 * 60 * 1000\<rparr>"
    by auto
  from pm have "afterKeyed = s'" by (simp add: afterKeyed_def)
  with pm r b c a up show ?thesis by (simp add: liveModel_def)
qed

text \<open>
  The claim as it was written has the response cached whenever a key was given. A call
  that gives the empty string as its key gets its reply, and the cache holds nothing
  under that key afterwards.
\<close>

theorem live_reply_counterexample:
  "idempotencyKey (ask ''c'' ''hello'' (Some [])) = Some []
   \<and> map_sum id (\<lambda>r. content (message_r r))
        (fst (processMessage friendlyWorld (ask ''c'' ''hello'' (Some [])) init))
       = Inr (JString ''hi there'')
   \<and> requestCache (fst (snd (processMessage friendlyWorld (ask ''c'' ''hello'' (Some [])) init))) []
       = None"
  by code_simp

section \<open>C7: rollback of a failed send\<close>

text \<open>
  C7. Take a \<open>sendMessage\<close> with a text that is not blank, on a client that is not
  sending and not offline, whose server call is rejected. The streaming buffer and the
  streaming flag are cleared and an error with a friendlier message is thrown. If the
  rejection is not a network failure, the message list is what it was before the send,
  the queue and the connection status are untouched, and the message thrown asks to
  wait when the cause mentions the rate limit and reports the cause otherwise. If it is
  a network failure, the user message stays in the list, the connection status becomes
  offline, and the error thrown says that the message has been saved; the message is
  appended to the offline queue, in the state and in the persistent store, when the
  store accepts the write. When the store refuses the write, the queue is left as it
  was, in the state and in the store: \<open>saveOfflineQueue\<close> catches the error of
  \<open>setItem\<close> and only logs it.
\<close>

theorem send_failure:
  assumes active: "trim text \<noteq> []" "\<not> isSending c" "connectionStatus c \<noteq> Offline"
    and fails: "rpc w 0 (sendRequest w text c) = Rejects err"
  shows "\<exists>c' fx. sendMessage w text c = (Threw (friendlyError err), c', fx)
       \<and> streamingMessage c' = [] \<and> \<not> isStreaming c' \<and> \<not> isSending c'
       \<and> (\<not> isNetworkError err \<longrightarrow>
              messages_c c' = messages_c c
            \<and> offlineQueue c' = offlineQueue c \<and> persistedQueue c' = persistedQueue c
            \<and> connectionStatus c' = connectionStatus c
            \<and> friendlyError err =
                 (if includesStr (errorMessageOf err) ''Rate limit'' then pleaseWait
                  else ''Failed to send message: '' @ errorMessageOf err))
       \<and> (isNetworkError err \<longrightarrow>
              messages_c c' = messages_c c @ [userMessageOf w text]
            \<and> connectionStatus c' = Offline
            \<and> friendlyError err = connectionLost
            \<and> (if setItemOk w
                then offlineQueue c' = offlineQueue c @ [userMessageOf w text]
                   \<and> persistedQueue c' = Some (offlineQueue c @ [userMessageOf w text])
                else offlineQueue c' = offlineQueue c \<and> persistedQueue c' = persistedQueue c))"
proof (cases "isNetworkError err")
  case True
  with sendMessage_rejected [OF active fails] show ?thesis
    by (simp add: saveOfflineQueue_def adoptConversation_frame friendlyError_def)
next
  case False
  with sendMessage_rejected [OF active fails] show ?thesis
    by (simp add: adoptConversation_frame friendlyError_def Let_def)
qed


text \<open>A rate-limited send, and a send that loses the connection.\<close>

theorem send_failure_witness:
  "trim ''  hello '' \<noteq> [] \<and> \<not> isSending chatting \<and> connectionStatus chatting \<noteq> Offline
   \<and> \<not> isNetworkError (Some rateLimitMessage)
   \<and> fst (sendMessage (refusing (Some rateLimitMessage) True) ''  hello '' chatting)
       = Threw pleaseWait
   \<and> messages_c (fst (snd (sendMessage (refusing (Some rateLimitMessage) True) ''  hello '' chatting)))
       = messages_c chatting
   \<and> isNetworkError (Some ''TypeError: Failed to fetch'')
   \<and> fst (sendMessage (refusing (Some ''TypeError: Failed to fetch'') True) ''  hello '' chatting)
       = Threw connectionLost
   \<and> messages_c (fst (snd (sendMessage (refusing (Some ''TypeError: Failed to fetch'') True)
                                ''  hello '' chatting)))
       = messages_c chatting @ [\<lparr>role = User, content = JString ''hello'', timestamp = 5000\<rparr>]
   \<and> offlineQueue (fst (snd (sendMessage (refusing (Some ''TypeError: Failed to fetch'') True)
                                  ''  hello '' chatting)))
       = [\<lparr>role = User, content = JString ''hello'', timestamp = 5000\<rparr>]
   \<and> connectionStatus (fst (snd (sendMessage (refusing (Some ''TypeError: Failed to fetch'') True)
                                      ''  hello '' chatting)))
       = Offline"
proof -
  let ?limited = "refusing (Some rateLimitMessage) True"
  let ?cut = "refusing (Some ''TypeError: Failed to fetch'') True"
  have t: "trim ''  hello '' \<noteq> []" by code_simp
  have s: "\<not> isSending chatting" and o: "connectionStatus chatting \<noteq> Offline"
    by (simp_all add: chatting_def)
  have f1: "rpc ?limited 0 (sendRequest ?limited ''  hello '' chatting) = Rejects (Some rateLimitMessage)"
    and f2: "rpc ?cut 0 (sendRequest ?cut ''  hello '' chatting)
               = Rejects (Some ''TypeError: Failed to fetch'')"
    by (simp_all add: refusing_def)
  have n1: "\<not> isNetworkError (Some rateLimitMessage)" by code_simp
  have n2: "isNetworkError (Some ''TypeError: Failed to fetch'')" by code_simp
  have m1: "friendlyError (Some rateLimitMessage) = pleaseWait" by code_simp
  have m2: "friendlyError (Some ''TypeError: Failed to fetch'') = connectionLost" by code_simp
  have u: "userMessageOf ?cut ''  hello '' = \<lparr>role = User, content = JString ''hello'', timestamp = 5000\<rparr>"
    by code_simp
  have w: "setItemOk ?cut" "offlineQueue chatting = []" by (simp_all add: refusing_def chatting_def)
  from send_failure [OF t s o f1] obtain c1 fx1 where
    a1: "sendMessage ?limited ''  hello '' chatting = (Threw (friendlyError (Some rateLimitMessage)), c1, fx1)"
    and b1: "\<not> isNetworkError (Some rateLimitMessage) \<longrightarrow> messages_c c1 = messages_c chatting"
    by blast
  from a1 b1 n1 m1
  have r1: "fst (sendMessage ?limited ''  hello '' chatting) = Threw pleaseWait"
    "messages_c (fst (snd (sendMessage ?limited ''  hello '' chatting))) = messages_c chatting"
    by simp_all
  from send_failure [OF t s o f2] obtain c2 fx2 where
    a2: "sendMessage ?cut ''  hello '' chatting
           = (Threw (friendlyError (Some ''TypeError: Failed to fetch'')), c2, fx2)"
    and b2: "isNetworkError (Some ''TypeError: Failed to fetch'') \<longrightarrow>
              messages_c c2 = messages_c chatting @ [userMessageOf ?cut ''  hello '']
            \<and> connectionStatus c2 = Offline
            \<and> friendlyError (Some ''TypeError: Failed to fetch'') = connectionLost
            \<and> (if setItemOk ?cut
                then offlineQueue c2 = offlineQueue chatting @ [userMessageOf ?cut ''  hello '']
                   \<and> persistedQueue c2 = Some (offlineQueue chatting @ [userMessageOf ?cut ''  hello ''])
                else offlineQueue c2 = offlineQueue chatting \<and> persistedQueue c2 = persistedQueue chatting)"
    by blast
  from b2 n2 w(1) have c2: "messages_c c2 = messages_c chatting @ [userMessageOf ?cut ''  hello '']"
    "connectionStatus c2 = Offline"
    "offlineQueue c2 = offlineQueue chatting @ [userMessageOf ?cut ''  hello '']"
    by simp_all
  from a2 c2 m2 have r2: "fst (sendMessage ?cut ''  hello '' chatting) = Threw connectionLost"
    "messages_c (fst (snd (sendMessage ?cut ''  hello '' chatting)))
       = messages_c chatting @ [\<lparr>role = User, content = JString ''hello'', timestamp = 5000\<rparr>]"
    "offlineQueue (fst (snd (sendMessage ?cut ''  hello '' chatting)))
       = [\<lparr>role = User, content = JString ''hello'', timestamp = 5000\<rparr>]"
    "connectionStatus (fst (snd (sendMessage ?cut ''  hello '' chatting))) = Offline"
    unfolding u w(2) by simp_all
  from t s o n1 n2 r1 r2 show ?thesis by blast
qed

text \<open>
  C7 has every network failure push the message to the offline queue, and so have the
  comment of the branch (\<open>Queue message for offline sending\<close>), its log line and the
  error it throws. Here the connection drops and the store refuses the write: the
  error thrown tells the user that the message has been saved, and the message is in
  no queue, neither in the state nor in the store; nothing will send it again.
\<close>

theorem send_failure_counterexample:
  "isNetworkError (Some ''TypeError: Failed to fetch'')
   \<and> connectionStatus chatting = Online
   \<and> \<not> setItemOk (refusing (Some ''TypeError: Failed to fetch'') False)
   \<and> fst (sendMessage (refusing (Some ''TypeError: Failed to fetch'') False) ''hello'' chatting)
       = Threw connectionLost
   \<and> includesStr connectionLost ''Your message has been saved''
   \<and> offlineQueue (fst (snd (sendMessage (refusing (Some ''TypeError: Failed to fetch'') False)
                                  ''hello'' chatting))) = []
   \<and> persistedQueue (fst (snd (sendMessage (refusing (Some ''TypeError: Failed to fetch'') False)
                                    ''hello'' chatting))) = None"
proof -
  let ?w = "refusing (Some ''TypeError: Failed to fetch'') False"
  have t: "trim ''hello'' \<noteq> []" by code_simp
  have s: "\<not> isSending chatting" and o: "connectionStatus chatting \<noteq> Offline"
    and on: "connectionStatus chatting = Online"
    and q: "offlineQueue chatting = []" "persistedQueue chatting = None"
    by (simp_all add: chatting_def)
  have f: "rpc ?w 0 (sendRequest ?w ''hello'' chatting) = Rejects (Some ''TypeError: Failed to fetch'')"
    and w: "\<not> setItemOk ?w"
    by (simp_all add: refusing_def)
  have n: "isNetworkError (Some ''TypeError: Failed to fetch'')" by code_simp
  have m: "friendlyError (Some ''TypeError: Failed to fetch'') = connectionLost" by code_simp
  have said: "includesStr connectionLost ''Your message has been saved''" by code_simp
  from sendMessage_rejected [OF t s o f] n w m q
  have "fst (sendMessage ?w ''hello'' chatting) = Threw connectionLost"
    "offlineQueue (fst (snd (sendMessage ?w ''hello'' chatting))) = []"
    "persistedQueue (fst (snd (sendMessage ?w ''hello'' chatting))) = None"
    by (simp_all add: saveOfflineQueue_def adoptConversation_frame)
  with n on w said show ?thesis by blast
qed

section \<open>C6: the drain of the offline queue\<close>



end
